theory Spec2Isabelle
  imports Complex_Main
begin

section \<open>JavaScript numbers\<close>

text \<open>
  Every number of the program is a JavaScript Number. The model keeps the special values
  of IEEE arithmetic apart from the finite ones: a finite number is an exact real
  (rounding, overflow and the sign of zero are left out; a zero divisor counts as +0),
  and \<open>NaN\<close>, \<open>+Infinity\<close> and \<open>-Infinity\<close> are values of their own, produced and
  propagated by the operations as the language specifies. Reading an array out of range
  gives \<open>undefined\<close>, which every arithmetic operation and comparison of the program
  turns into \<open>NaN\<close>; the model reads \<open>NaN\<close> there.
\<close>

datatype jsnum = Num real | PosInf | NegInf | NaN

fun is_finite :: "jsnum \<Rightarrow> bool" where
  "is_finite (Num _) = True"
| "is_finite _ = False"

fun jneg :: "jsnum \<Rightarrow> jsnum" where
  "jneg (Num a) = Num (- a)"
| "jneg PosInf = NegInf"
| "jneg NegInf = PosInf"
| "jneg NaN = NaN"

fun jadd :: "jsnum \<Rightarrow> jsnum \<Rightarrow> jsnum" where
  "jadd NaN _ = NaN"
| "jadd _ NaN = NaN"
| "jadd (Num a) (Num b) = Num (a + b)"
| "jadd PosInf NegInf = NaN"
| "jadd NegInf PosInf = NaN"
| "jadd PosInf _ = PosInf"
| "jadd _ PosInf = PosInf"
| "jadd NegInf _ = NegInf"
| "jadd _ NegInf = NegInf"

definition jsub :: "jsnum \<Rightarrow> jsnum \<Rightarrow> jsnum" where
  "jsub a b = jadd a (jneg b)"

text \<open>The sign of a non-NaN number: \<open>1\<close>, \<open>0\<close> or \<open>-1\<close>.\<close>

fun jsign :: "jsnum \<Rightarrow> int" where
  "jsign (Num a) = (if a > 0 then 1 else if a < 0 then - 1 else 0)"
| "jsign PosInf = 1"
| "jsign NegInf = - 1"
| "jsign NaN = 0"

definition inf_of_sign :: "int \<Rightarrow> jsnum" where
  "inf_of_sign s = (if s > 0 then PosInf else if s < 0 then NegInf else NaN)"

fun jmul :: "jsnum \<Rightarrow> jsnum \<Rightarrow> jsnum" where
  "jmul NaN _ = NaN"
| "jmul _ NaN = NaN"
| "jmul (Num a) (Num b) = Num (a * b)"
| "jmul x y = inf_of_sign (jsign x * jsign y)"

fun jdiv :: "jsnum \<Rightarrow> jsnum \<Rightarrow> jsnum" where
  "jdiv NaN _ = NaN"
| "jdiv _ NaN = NaN"
| "jdiv (Num a) (Num b) = (if b = 0 then inf_of_sign (jsign (Num a)) else Num (a / b))"
| "jdiv (Num a) _ = Num 0"
| "jdiv PosInf (Num b) = (if b < 0 then NegInf else PosInf)"
| "jdiv NegInf (Num b) = (if b < 0 then PosInf else NegInf)"
| "jdiv _ _ = NaN"

text \<open>\<open>a < b\<close>; every comparison with \<open>NaN\<close> is false.\<close>

fun jlt :: "jsnum \<Rightarrow> jsnum \<Rightarrow> bool" where
  "jlt NaN _ = False"
| "jlt _ NaN = False"
| "jlt (Num a) (Num b) = (a < b)"
| "jlt _ NegInf = False"
| "jlt NegInf _ = True"
| "jlt PosInf _ = False"
| "jlt _ PosInf = True"

definition jgt :: "jsnum \<Rightarrow> jsnum \<Rightarrow> bool" where
  "jgt a b = jlt b a"

text \<open>Strict equality \<open>===\<close> on numbers: \<open>NaN\<close> equals nothing.\<close>

definition jeq :: "jsnum \<Rightarrow> jsnum \<Rightarrow> bool" where
  "jeq a b = (a \<noteq> NaN \<and> a = b)"

text \<open>\<open>Math.max\<close> and \<open>Math.min\<close> of two numbers: \<open>NaN\<close> if either is.\<close>

definition jmax :: "jsnum \<Rightarrow> jsnum \<Rightarrow> jsnum" where
  "jmax a b = (if a = NaN \<or> b = NaN then NaN else if jlt a b then b else a)"

definition jmin :: "jsnum \<Rightarrow> jsnum \<Rightarrow> jsnum" where
  "jmin a b = (if a = NaN \<or> b = NaN then NaN else if jlt b a then b else a)"

fun jabs :: "jsnum \<Rightarrow> jsnum" where
  "jabs (Num a) = Num \<bar>a\<bar>"
| "jabs PosInf = PosInf"
| "jabs NegInf = PosInf"
| "jabs NaN = NaN"

fun jfloor :: "jsnum \<Rightarrow> jsnum" where
  "jfloor (Num a) = Num (of_int \<lfloor>a\<rfloor>)"
| "jfloor x = x"

fun jsqrt :: "jsnum \<Rightarrow> jsnum" where
  "jsqrt (Num a) = (if a < 0 then NaN else Num (sqrt a))"
| "jsqrt PosInf = PosInf"
| "jsqrt _ = NaN"

text \<open>\<open>Math.log\<close>: the natural logarithm.\<close>

fun jlog :: "jsnum \<Rightarrow> jsnum" where
  "jlog (Num a) = (if a < 0 then NaN else if a = 0 then NegInf else Num (ln a))"
| "jlog PosInf = PosInf"
| "jlog _ = NaN"

fun jlog10 :: "jsnum \<Rightarrow> jsnum" where
  "jlog10 (Num a) = (if a < 0 then NaN else if a = 0 then NegInf else Num (log 10 a))"
| "jlog10 PosInf = PosInf"
| "jlog10 _ = NaN"

fun jexp :: "jsnum \<Rightarrow> jsnum" where
  "jexp (Num a) = Num (exp a)"
| "jexp PosInf = PosInf"
| "jexp NegInf = Num 0"
| "jexp NaN = NaN"

text \<open>
  \<open>Math.pow\<close>, case by case as the language defines it. For finite operands an integer
  exponent is an integer power, any other exponent of a negative base is \<open>NaN\<close>.
\<close>

definition is_int :: "real \<Rightarrow> bool" where
  "is_int b = (b = of_int \<lfloor>b\<rfloor>)"

definition is_odd_int :: "real \<Rightarrow> bool" where
  "is_odd_int b = (is_int b \<and> odd \<lfloor>b\<rfloor>)"

fun jpow :: "jsnum \<Rightarrow> jsnum \<Rightarrow> jsnum" where
  "jpow _ NaN = NaN"
| "jpow x (Num b) =
     (if b = 0 then Num 1
      else case x of
        NaN \<Rightarrow> NaN
      | PosInf \<Rightarrow> (if b > 0 then PosInf else Num 0)
      | NegInf \<Rightarrow> (if b > 0 then (if is_odd_int b then NegInf else PosInf) else Num 0)
      | Num a \<Rightarrow>
          (if a = 0 then (if b > 0 then Num 0 else PosInf)
           else if is_int b then Num (a powi \<lfloor>b\<rfloor>)
           else if a < 0 then NaN
           else Num (a powr b)))"
| "jpow x PosInf =
     (case x of
        NaN \<Rightarrow> NaN
      | PosInf \<Rightarrow> PosInf
      | NegInf \<Rightarrow> PosInf
      | Num a \<Rightarrow> (if \<bar>a\<bar> > 1 then PosInf else if \<bar>a\<bar> = 1 then NaN else Num 0))"
| "jpow x NegInf =
     (case x of
        NaN \<Rightarrow> NaN
      | PosInf \<Rightarrow> Num 0
      | NegInf \<Rightarrow> Num 0
      | Num a \<Rightarrow> (if \<bar>a\<bar> > 1 then Num 0 else if \<bar>a\<bar> = 1 then NaN else PosInf))"

text \<open>A number is falsy when it is zero or \<open>NaN\<close>.\<close>

definition truthy :: "jsnum \<Rightarrow> bool" where
  "truthy x = (x \<noteq> Num 0 \<and> x \<noteq> NaN)"

text \<open>An array read \<open>xs[i]\<close>.\<close>

definition rd :: "jsnum list \<Rightarrow> nat \<Rightarrow> jsnum" where
  "rd xs i = (if i < length xs then xs ! i else NaN)"

section \<open>The synthesizer engine\<close>

text \<open>
  The parameter object of the engine, with the ten keys the constructor gives it. The
  optimizer only ever copies and updates such complete objects.
\<close>

record params =
  oscillatorType :: string
  filterFreq :: jsnum
  filterQ :: jsnum
  distortionAmount :: jsnum
  chorusWet :: jsnum
  attack :: jsnum
  decay :: jsnum
  sustain :: jsnum
  release :: jsnum
  vibeDepth :: jsnum

text \<open>
  The settings of the audio nodes that \<open>initialize\<close> creates and the engine writes to:
  the synth's oscillator and envelope, the filter, the distortion, the chorus and the LFO.
\<close>

record audio_graph =
  synth_oscillator :: string
  envelope_attack :: jsnum
  envelope_decay :: jsnum
  envelope_sustain :: jsnum
  envelope_release :: jsnum
  filter_frequency :: jsnum
  filter_Q :: jsnum
  distortion_distortion :: jsnum
  distortion_wet :: jsnum
  chorus_wet :: jsnum
  lfo_amplitude :: jsnum
  lfo_frequency :: jsnum

text \<open>
  The engine object. The nodes are \<open>null\<close> until \<open>initialize\<close> creates all of them
  together (\<open>graph = None\<close> before); \<open>lockedFrequency\<close> is \<open>null\<close> or \<open>undefined\<close>
  (\<open>None\<close>) or a number.
\<close>

record engine =
  graph :: "audio_graph option"
  isInitialized :: bool
  lockedFrequency :: "jsnum option"
  currentParams :: params

record spectrum =
  magnitudes :: "jsnum list"
  frequencies :: "jsnum list"
  sampleRate :: jsnum
  fftSize :: nat

datatype error = TypeError | IndexSizeError | FileTooLarge | DecodeError
  | TooQuiet | AppearsSilent

definition constructor :: engine where
  "constructor =
     \<lparr> graph = None, isInitialized = False, lockedFrequency = None,
       currentParams =
         \<lparr> oscillatorType = ''sawtooth'', filterFreq = Num 2000, filterQ = Num 1,
           distortionAmount = Num 0, chorusWet = Num 0, attack = Num 0.01,
           decay = Num 0.2, sustain = Num 0.5, release = Num 0.5, vibeDepth = Num 0 \<rparr> \<rparr>"

text \<open>
  \<open>initialize\<close>, once the audio has started: it creates the nodes with their first
  settings, and does nothing on an engine that is initialized.
\<close>

definition initialize :: "engine \<Rightarrow> engine" where
  "initialize eng =
     (if isInitialized eng then eng
      else eng \<lparr> graph := Some
               \<lparr> synth_oscillator = ''sawtooth'', envelope_attack = Num 0.01,
                 envelope_decay = Num 0.2, envelope_sustain = Num 0.5,
                 envelope_release = Num 0.5, filter_frequency = Num 2000,
                 filter_Q = Num 1, distortion_distortion = Num 0,
                 distortion_wet = Num 0, chorus_wet = Num 0,
                 lfo_amplitude = Num 0, lfo_frequency = Num 5 \<rparr>,
               isInitialized := True \<rparr>)"

text \<open>The fields of an analysis result that \<open>configure\<close> reads.\<close>

record analysis_results =
  detectedRelease :: jsnum
  isWide :: bool
  pitchHz :: "jsnum option"

text \<open>
  \<open>configure\<close> returns without a change before initialization; a missing node would
  raise a \<open>TypeError\<close>.
\<close>

definition configure :: "engine \<Rightarrow> analysis_results \<Rightarrow> error + engine" where
  "configure eng r =
     (if \<not> isInitialized eng then Inr eng
      else case graph eng of
        None \<Rightarrow> Inl TypeError
      | Some g \<Rightarrow>
          let p1 = (currentParams eng) \<lparr> release := detectedRelease r \<rparr>;
              g1 = g \<lparr> envelope_release := detectedRelease r \<rparr>;
              p2 = (if isWide r then p1 \<lparr> chorusWet := Num 0.5 \<rparr> else p1);
              g2 = (if isWide r then g1 \<lparr> chorus_wet := Num 0.5 \<rparr> else g1)
          in Inr (eng \<lparr> graph := Some g2, currentParams := p2,
                         lockedFrequency := pitchHz r \<rparr>))"

subsection \<open>The spectral model\<close>

text \<open>\<open>this.lockedFrequency || 440\<close>\<close>

definition fundamental :: "engine \<Rightarrow> jsnum" where
  "fundamental eng =
     (case lockedFrequency eng of
        None \<Rightarrow> Num 440
      | Some f \<Rightarrow> if truthy f then f else Num 440)"

text \<open>The \<open>switch\<close> on the oscillator type, for harmonic \<open>i\<close>.\<close>

definition harmonic_amplitude :: "string \<Rightarrow> nat \<Rightarrow> jsnum" where
  "harmonic_amplitude osc i =
     (if osc = ''sawtooth'' then jdiv (Num 1) (Num (real i))
      else if osc = ''square'' then
        (if i mod 2 = 1 then jdiv (Num 1) (Num (real i)) else Num 0)
      else if osc = ''triangle'' then
        (if i mod 2 = 1 then jdiv (Num 1) (Num (real (i * i))) else Num 0)
      else (if i = 1 then Num 1 else Num 0))"

text \<open>
  \<open>spectrum[bin] += v\<close> on a typed array: a write at an index that is not one of the
  array's is dropped.
\<close>

definition spectrum_add :: "jsnum list \<Rightarrow> jsnum \<Rightarrow> jsnum \<Rightarrow> jsnum list" where
  "spectrum_add sp bin v =
     (case bin of
        Num b \<Rightarrow>
          (if is_int b \<and> 0 \<le> b \<and> b < real (length sp)
           then sp [nat \<lfloor>b\<rfloor> := jadd (sp ! nat \<lfloor>b\<rfloor>) v]
           else sp)
      | _ \<Rightarrow> sp)"

text \<open>One round of the loop over the harmonics \<open>i = 1, ..., 16\<close>.\<close>

definition harmonic_step :: "jsnum \<Rightarrow> params \<Rightarrow> nat \<Rightarrow> jsnum list \<Rightarrow> jsnum list" where
  "harmonic_step fund p i sp =
     (let freq = jmul fund (Num (real i));
          bin = jfloor (jdiv freq (Num 172))
      in if jlt bin (Num (real (length sp))) then
           let amplitude = harmonic_amplitude (oscillatorType p) i;
               filterRolloff =
                 (if jgt freq (filterFreq p)
                  then jpow (jdiv (filterFreq p) freq) (Num 2) else Num 1);
               amplitude' =
                 (if jgt freq (jmul (filterFreq p) (Num 0.9)) \<and>
                     jlt freq (jmul (filterFreq p) (Num 1.1))
                  then jmul amplitude (jadd (Num 1) (jmul (filterQ p) (Num 0.5)))
                  else amplitude)
           in spectrum_add sp bin (jmul amplitude' filterRolloff)
         else sp)"

definition estimateSynthSpectrum :: "engine \<Rightarrow> params \<Rightarrow> jsnum list" where
  "estimateSynthSpectrum eng p =
     (let sp = fold (harmonic_step (fundamental eng) p) [1..<17] (replicate 128 (Num 0))
      in if jgt (distortionAmount p) (Num 0)
         then map (\<lambda>s. jadd s (jmul (jmul s (distortionAmount p)) (Num 0.3))) sp
         else sp)"

subsection \<open>The energy function\<close>

definition energy_term :: "jsnum list \<Rightarrow> jsnum list \<Rightarrow> nat \<Rightarrow> jsnum \<Rightarrow> jsnum" where
  "energy_term synthResponse targetMags i energy =
     (let diff = jsub (jlog (jadd (rd synthResponse i) (Num 1)))
                      (jlog (jadd (rd targetMags i) (Num 1)))
      in jadd energy (jmul diff diff))"

definition calculateEnergy :: "engine \<Rightarrow> params \<Rightarrow> spectrum option \<Rightarrow> jsnum" where
  "calculateEnergy eng p targetSpectrum =
     (case targetSpectrum of
        None \<Rightarrow> Num 1
      | Some t \<Rightarrow>
          let synthResponse = estimateSynthSpectrum eng p;
              targetMags = magnitudes t;
              compareLength = min (min (length synthResponse) (length targetMags)) 64;
              energy = fold (energy_term synthResponse targetMags) [0..<compareLength] (Num 0)
          in jdiv energy (Num (real compareLength)))"

subsection \<open>Applying parameters to the nodes\<close>

text \<open>
  \<open>applyParams\<close> for a complete parameter object: the merge with \<open>currentParams\<close> is
  then the object itself, no key is \<open>undefined\<close>, and the oscillator type is skipped
  only when it is the empty string. Writing to a node that is \<open>null\<close> raises a
  \<open>TypeError\<close>.
\<close>

definition applyParams :: "engine \<Rightarrow> params \<Rightarrow> error + engine" where
  "applyParams eng p =
     (case graph eng of
        None \<Rightarrow> Inl TypeError
      | Some g \<Rightarrow>
          let g1 = (if oscillatorType p \<noteq> [] then g \<lparr> synth_oscillator := oscillatorType p \<rparr>
                    else g);
              g2 = g1 \<lparr> filter_frequency := filterFreq p, filter_Q := filterQ p,
                        distortion_distortion := distortionAmount p,
                        distortion_wet :=
                          (if jgt (distortionAmount p) (Num 0) then Num 1 else Num 0),
                        chorus_wet := chorusWet p,
                        envelope_attack := attack p, envelope_decay := decay p,
                        envelope_sustain := sustain p, envelope_release := release p \<rparr>
          in Inr (eng \<lparr> currentParams := p, graph := Some g2 \<rparr>))"

subsection \<open>The annealing optimizer\<close>

text \<open>The keys of \<open>paramRanges\<close>, in the order \<open>Object.keys\<close> lists them.\<close>

datatype pkey = FilterFreq | FilterQ | DistortionAmount | Attack | Decay | Sustain

definition paramKeys :: "pkey list" where
  "paramKeys = [FilterFreq, FilterQ, DistortionAmount, Attack, Decay, Sustain]"

fun range_min :: "pkey \<Rightarrow> jsnum" where
  "range_min FilterFreq = Num 200"
| "range_min FilterQ = Num 0.5"
| "range_min DistortionAmount = Num 0"
| "range_min Attack = Num 0.001"
| "range_min Decay = Num 0.01"
| "range_min Sustain = Num 0.1"

fun range_max :: "pkey \<Rightarrow> jsnum" where
  "range_max FilterFreq = Num 8000"
| "range_max FilterQ = Num 10"
| "range_max DistortionAmount = Num 0.8"
| "range_max Attack = Num 0.5"
| "range_max Decay = Num 1"
| "range_max Sustain = Num 1"

fun get_param :: "pkey \<Rightarrow> params \<Rightarrow> jsnum" where
  "get_param FilterFreq p = filterFreq p"
| "get_param FilterQ p = filterQ p"
| "get_param DistortionAmount p = distortionAmount p"
| "get_param Attack p = attack p"
| "get_param Decay p = decay p"
| "get_param Sustain p = sustain p"

fun set_param :: "pkey \<Rightarrow> jsnum \<Rightarrow> params \<Rightarrow> params" where
  "set_param FilterFreq v p = p \<lparr> filterFreq := v \<rparr>"
| "set_param FilterQ v p = p \<lparr> filterQ := v \<rparr>"
| "set_param DistortionAmount v p = p \<lparr> distortionAmount := v \<rparr>"
| "set_param Attack v p = p \<lparr> attack := v \<rparr>"
| "set_param Decay v p = p \<lparr> decay := v \<rparr>"
| "set_param Sustain v p = p \<lparr> sustain := v \<rparr>"

text \<open>
  \<open>paramKeys[Math.floor(r * paramKeys.length)]\<close>, \<open>undefined\<close> (\<open>None\<close>) outside the
  array.
\<close>

definition key_at :: "real \<Rightarrow> pkey option" where
  "key_at r =
     (case jfloor (jmul (Num r) (Num (real (length paramKeys)))) of
        Num b \<Rightarrow> (if 0 \<le> b \<and> b < real (length paramKeys)
                   then Some (paramKeys ! nat \<lfloor>b\<rfloor>) else None)
      | _ \<Rightarrow> None)"

definition startTemp :: jsnum where "startTemp = Num 1"
definition endTemp :: jsnum where "endTemp = Num 0.01"

definition temperature :: "nat \<Rightarrow> nat \<Rightarrow> jsnum" where
  "temperature steps step =
     jmul startTemp (jpow (jdiv endTemp startTemp) (jdiv (Num (real step)) (Num (real steps))))"

text \<open>
  The variables of the loop. \<open>draws\<close> counts the calls of \<open>Math.random\<close> made so far: the
  random numbers are a sequence \<open>rnd\<close>, read in order.
\<close>

record anneal_state =
  curParams :: params
  curEnergy :: jsnum
  bestParams :: params
  bestEnergy :: jsnum
  draws :: nat

definition accept :: "params \<Rightarrow> jsnum \<Rightarrow> nat \<Rightarrow> anneal_state \<Rightarrow> anneal_state" where
  "accept newParams newEnergy n st =
     (if jlt newEnergy (bestEnergy st)
      then st \<lparr> curParams := newParams, curEnergy := newEnergy,
                bestParams := newParams, bestEnergy := newEnergy, draws := n \<rparr>
      else st \<lparr> curParams := newParams, curEnergy := newEnergy, draws := n \<rparr>)"

text \<open>
  One round of the loop. A key outside \<open>paramKeys\<close> has no range, and reading its
  \<open>max\<close> raises a \<open>TypeError\<close>. The third random number is drawn only when the trial is
  not better.
\<close>

definition anneal_step ::
  "engine \<Rightarrow> spectrum option \<Rightarrow> (nat \<Rightarrow> real) \<Rightarrow> nat \<Rightarrow> nat \<Rightarrow> anneal_state
     \<Rightarrow> error + anneal_state" where
  "anneal_step eng targetSpectrum rnd steps step st =
     (let temp = temperature steps step in
      case key_at (rnd (draws st)) of
        None \<Rightarrow> Inl TypeError
      | Some keyToMutate \<Rightarrow>
          let mutation =
                jmul (jmul (jmul (jsub (Num (rnd (draws st + 1))) (Num 0.5))
                                 (jsub (range_max keyToMutate) (range_min keyToMutate)))
                           (Num 0.2)) temp;
              newParams = set_param keyToMutate
                (jmax (range_min keyToMutate) (jmin (range_max keyToMutate)
                   (jadd (get_param keyToMutate (curParams st)) mutation)))
                (curParams st);
              newEnergy = calculateEnergy eng newParams targetSpectrum;
              delta = jsub newEnergy (curEnergy st)
          in if jlt delta (Num 0) then Inr (accept newParams newEnergy (draws st + 2) st)
             else if jlt (Num (rnd (draws st + 2))) (jexp (jdiv (jneg delta) temp))
             then Inr (accept newParams newEnergy (draws st + 3) st)
             else Inr (st \<lparr> draws := draws st + 3 \<rparr>))"

text \<open>
  The loop \<open>for (step = 0; step < steps; step++)\<close>, from round \<open>step\<close> on. It returns
  the state after each round, in order.
\<close>

function anneal_loop ::
  "engine \<Rightarrow> spectrum option \<Rightarrow> (nat \<Rightarrow> real) \<Rightarrow> nat \<Rightarrow> nat \<Rightarrow> anneal_state
     \<Rightarrow> error + anneal_state list" where
  "anneal_loop eng targetSpectrum rnd steps step st =
     (if step < steps then
        (case anneal_step eng targetSpectrum rnd steps step st of
           Inl e \<Rightarrow> Inl e
         | Inr st' \<Rightarrow>
             (case anneal_loop eng targetSpectrum rnd steps (Suc step) st' of
                Inl e \<Rightarrow> Inl e
              | Inr tr \<Rightarrow> Inr (st' # tr)))
      else Inr [])"
  by pat_completeness auto
termination
  by (relation "measure (\<lambda>(eng, targetSpectrum, rnd, steps, step, st). steps - step)") auto

declare anneal_loop.simps [simp del]

text \<open>The object handed to the progress callback at the end of a round.\<close>

record progress =
  prog_step :: nat
  prog_totalSteps :: nat
  prog_energy :: jsnum
  prog_params :: params

definition progress_calls :: "nat \<Rightarrow> anneal_state list \<Rightarrow> progress list" where
  "progress_calls steps tr =
     map (\<lambda>(i, st). \<lparr> prog_step = i, prog_totalSteps = steps,
                       prog_energy = bestEnergy st, prog_params = bestParams st \<rparr>)
       (zip [0..<length tr] tr)"

definition initial_state :: "engine \<Rightarrow> spectrum option \<Rightarrow> anneal_state" where
  "initial_state eng targetSpectrum =
     \<lparr> curParams = currentParams eng,
       curEnergy = calculateEnergy eng (currentParams eng) targetSpectrum,
       bestParams = currentParams eng,
       bestEnergy = calculateEnergy eng (currentParams eng) targetSpectrum,
       draws = 0 \<rparr>"

text \<open>
  \<open>runSimulatedAnnealing\<close> for a whole number of \<open>steps\<close>. It returns the engine as
  the run leaves it, the value returned (\<open>None\<close> for \<open>null\<close>) and the objects the
  progress callback received, in order (none when no callback is given:
  \<open>onProgress\<close> says whether one is). The callback is an observer: it returns
  normally and does not touch the engine.
\<close>

definition runSimulatedAnnealing ::
  "engine \<Rightarrow> spectrum option \<Rightarrow> nat \<Rightarrow> bool \<Rightarrow> (nat \<Rightarrow> real)
     \<Rightarrow> error + (engine \<times> params option \<times> progress list)" where
  "runSimulatedAnnealing eng targetSpectrum steps onProgress rnd =
     (if \<not> isInitialized eng then Inr (eng, None, [])
      else
        let st0 = initial_state eng targetSpectrum in
        case anneal_loop eng targetSpectrum rnd steps 0 st0 of
          Inl e \<Rightarrow> Inl e
        | Inr tr \<Rightarrow>
            let final = last (st0 # tr) in
            (case applyParams eng (bestParams final) of
               Inl e \<Rightarrow> Inl e
             | Inr eng' \<Rightarrow>
                 Inr (eng', Some (bestParams final),
                      if onProgress then progress_calls steps tr else [])))"

section \<open>The analyzer\<close>

text \<open>
  A decoded audio buffer: the samples of each channel (every channel as long as the
  others) and the sample rate.
\<close>

record audio_buffer =
  channelData :: "jsnum list list"
  bufferRate :: jsnum

text \<open>
  What \<open>analyze\<close> reads of a file: its size in bytes, and what the decoder of the audio
  context makes of its bytes (\<open>None\<close> when it rejects them).
\<close>

record audio_file =
  file_size :: nat
  decoded :: "audio_buffer option"

text \<open>The analyzer object: \<open>audioContext\<close> is \<open>null\<close> until \<open>initialize\<close> creates it.\<close>

record analyzer =
  hasAudioContext :: bool

definition MAX_FILE_SIZE :: nat where "MAX_FILE_SIZE = 10 * 1024 * 1024"
definition SILENCE_THRESHOLD_DB :: jsnum where "SILENCE_THRESHOLD_DB = Num (- 60)"
definition NORMALIZE_TARGET_DB :: jsnum where "NORMALIZE_TARGET_DB = Num (- 3)"

definition analyzer_initialize :: "analyzer \<Rightarrow> analyzer" where
  "analyzer_initialize an = an \<lparr> hasAudioContext := True \<rparr>"

definition dbToLinear :: "jsnum \<Rightarrow> jsnum" where
  "dbToLinear db = jpow (Num 10) (jdiv db (Num 20))"

definition linearToDb :: "jsnum \<Rightarrow> jsnum" where
  "linearToDb lin = jmul (Num 20) (jlog10 (jmax lin (Num (1 / 10 ^ 10))))"

definition validateFile :: "audio_file \<Rightarrow> error + bool" where
  "validateFile f = (if file_size f > MAX_FILE_SIZE then Inl FileTooLarge else Inr True)"

text \<open>The largest absolute sample, over the channels in order.\<close>

definition max_amplitude :: "jsnum list list \<Rightarrow> jsnum" where
  "max_amplitude chs =
     fold (\<lambda>ch m. fold (\<lambda>x maxAmplitude. jmax maxAmplitude (jabs x)) ch m) chs (Num 0)"

text \<open>
  \<open>normalizeBuffer\<close>: the new buffer is made by the audio context, so a missing context
  raises a \<open>TypeError\<close> (after the scan and the check for silence).
\<close>

definition normalizeBuffer :: "analyzer \<Rightarrow> audio_buffer \<Rightarrow> jsnum \<Rightarrow> error + audio_buffer" where
  "normalizeBuffer an audioBuffer targetDb =
     (let maxAmplitude = max_amplitude (channelData audioBuffer) in
      if jeq maxAmplitude (Num 0) then Inl AppearsSilent
      else
        let targetLinear = dbToLinear targetDb;
            gain = jdiv targetLinear maxAmplitude;
            channels = map (map (\<lambda>x. jmul x gain)) (channelData audioBuffer)
        in if \<not> hasAudioContext an then Inl TypeError
           else Inr \<lparr> channelData = channels, bufferRate = bufferRate audioBuffer \<rparr>)"

text \<open>\<open>checkSilence\<close> reads channel 0; a buffer with no channel has none to give.\<close>

definition checkSilence :: "audio_buffer \<Rightarrow> error + jsnum" where
  "checkSilence audioBuffer =
     (case channelData audioBuffer of
        [] \<Rightarrow> Inl IndexSizeError
      | ch # _ \<Rightarrow>
          let rms = fold (\<lambda>x rms. jadd rms (jmul x x)) ch (Num 0);
              rms' = jsqrt (jdiv rms (Num (real (length ch))));
              dbLevel = linearToDb rms'
          in if jlt dbLevel SILENCE_THRESHOLD_DB then Inl TooQuiet else Inr dbLevel)"

text \<open>
  \<open>detectPitch\<close>: the scan for the peak over the bins \<open>1, ..., length - 2\<close>, then the
  parabolic interpolation.
\<close>

definition peak_step :: "spectrum \<Rightarrow> nat \<Rightarrow> jsnum \<times> nat \<Rightarrow> jsnum \<times> nat" where
  "peak_step sp i acc =
     (if jgt (rd (frequencies sp) i) (Num 50) \<and> jlt (rd (frequencies sp) i) (Num 2000)
      then (if jgt (rd (magnitudes sp) i) (fst acc) then (rd (magnitudes sp) i, i) else acc)
      else acc)"

definition detectPitch :: "spectrum \<Rightarrow> jsnum" where
  "detectPitch sp =
     (let peakIdx = snd (fold (peak_step sp) [1..<length (magnitudes sp) - 1] (Num 0, 0)) in
      if peakIdx > 0 \<and> peakIdx + 1 < length (magnitudes sp) then
        let y0 = rd (magnitudes sp) (peakIdx - 1);
            y1 = rd (magnitudes sp) peakIdx;
            y2 = rd (magnitudes sp) (peakIdx + 1);
            delta = jdiv (jsub y0 y2)
                      (jmul (Num 2) (jadd (jsub y0 (jmul (Num 2) y1)) y2))
        in jadd (rd (frequencies sp) peakIdx)
                (jmul delta (jsub (rd (frequencies sp) 1) (rd (frequencies sp) 0)))
      else rd (frequencies sp) peakIdx)"

text \<open>
  \<open>analyze\<close> up to the normalized buffer; \<open>extract\<close> stands for the rest, which computes
  the descriptor from the normalized buffer and raises nothing.
\<close>

definition analyze :: "(audio_buffer \<Rightarrow> 'd) \<Rightarrow> analyzer \<Rightarrow> audio_file \<Rightarrow> error + 'd" where
  "analyze extract an f =
     (let an' = analyzer_initialize an in
      case validateFile f of
        Inl e \<Rightarrow> Inl e
      | Inr _ \<Rightarrow>
          (case decoded f of
             None \<Rightarrow> Inl DecodeError
           | Some audioBuffer \<Rightarrow>
               (case checkSilence audioBuffer of
                  Inl e \<Rightarrow> Inl e
                | Inr _ \<Rightarrow>
                    (case normalizeBuffer an' audioBuffer NORMALIZE_TARGET_DB of
                       Inl e \<Rightarrow> Inl e
                     | Inr normalized \<Rightarrow> Inr (extract normalized)))))"

section \<open>Reference definitions from the specification\<close>

subsection \<open>The spectral model as the specification words it\<close>

definition jsum :: "jsnum list \<Rightarrow> jsnum" where
  "jsum xs = fold (\<lambda>x acc. jadd acc x) xs (Num 0)"







subsection \<open>The energy as the specification words it\<close>

text \<open>
  The mean squared error of \<open>log(mag + 1)\<close> over the first
  \<open>min(64, len(estimated), len(target))\<close> bins.
\<close>

definition log_error :: "jsnum \<times> jsnum \<Rightarrow> jsnum" where
  "log_error st =
     (let d = jsub (jlog (jadd (fst st) (Num 1))) (jlog (jadd (snd st) (Num 1))) in jmul d d)"

definition mse_log :: "jsnum list \<Rightarrow> jsnum list \<Rightarrow> jsnum" where
  "mse_log estimated target =
     (let n = min 64 (min (length estimated) (length target))
      in jdiv (jsum (map log_error (take n (zip estimated target)))) (Num (real n)))"

subsection \<open>The best-seen state of a run\<close>



text \<open>\<open>Math.random\<close> returns numbers from 0 up to, not including, 1.\<close>

definition random_ok :: "(nat \<Rightarrow> real) \<Rightarrow> bool" where
  "random_ok rnd = (\<forall>n. 0 \<le> rnd n \<and> rnd n < 1)"

subsection \<open>The declared bounds\<close>

text \<open>A value within the range that \<open>paramRanges\<close> gives its key.\<close>

definition in_range :: "pkey \<Rightarrow> jsnum \<Rightarrow> bool" where
  "in_range k v = (v \<noteq> NaN \<and> \<not> jlt v (range_min k) \<and> \<not> jlt (range_max k) v)"

definition num_between :: "real \<Rightarrow> real \<Rightarrow> jsnum \<Rightarrow> bool" where
  "num_between lo hi v = (case v of Num x \<Rightarrow> lo \<le> x \<and> x \<le> hi | _ \<Rightarrow> False)"

text \<open>
  The bounds as the specification lists them: filterFreq [200, 8000], filterQ [0.5, 10],
  distortionAmount [0, 0.8], attack [0.001, 0.5], decay [0.01, 1], sustain [0.1, 1].
\<close>

definition within_bounds :: "params \<Rightarrow> bool" where
  "within_bounds p =
     (num_between 200 8000 (filterFreq p) \<and> num_between 0.5 10 (filterQ p) \<and>
      num_between 0 0.8 (distortionAmount p) \<and> num_between 0.001 0.5 (attack p) \<and>
      num_between 0.01 1 (decay p) \<and> num_between 0.1 1 (sustain p))"

text \<open>Every mutable parameter of \<open>p\<close> is as in \<open>start\<close> or within its range.\<close>

definition param_ok :: "params \<Rightarrow> params \<Rightarrow> bool" where
  "param_ok start p = (\<forall>k. get_param k p = get_param k start \<or> in_range k (get_param k p))"

subsection \<open>Peak and level of a buffer\<close>

text \<open>The value of a finite number.\<close>

definition the_num :: "jsnum \<Rightarrow> real" where
  "the_num x = (case x of Num a \<Rightarrow> a | _ \<Rightarrow> 0)"

text \<open>The peak absolute amplitude: the largest absolute sample (0 when there is none).\<close>

definition peak_amplitude :: "jsnum list list \<Rightarrow> real" where
  "peak_amplitude chs = Max (set (0 # map (\<lambda>x. \<bar>the_num x\<bar>) (concat chs)))"

text \<open>The buffer with every sample scaled by \<open>10^(t/20) / peakAbsoluteAmplitude\<close>.\<close>

definition normalized :: "audio_buffer \<Rightarrow> real \<Rightarrow> audio_buffer" where
  "normalized buf t =
     \<lparr> channelData =
         map (map (\<lambda>x. jmul x (Num (10 powr (t / 20) / peak_amplitude (channelData buf)))))
           (channelData buf),
       bufferRate = bufferRate buf \<rparr>"

text \<open>
  The root mean square of a channel, and whether its level in dB, \<open>20 log10(rms)\<close>, is
  below -60 (the level of an RMS of 0 is below every threshold).
\<close>

definition rms :: "real list \<Rightarrow> real" where
  "rms xs = sqrt ((\<Sum>x\<leftarrow>xs. x\<^sup>2) / real (length xs))"

definition level_below_threshold :: "real list \<Rightarrow> bool" where
  "level_below_threshold xs = (rms xs = 0 \<or> 20 * log 10 (rms xs) < - 60)"

text \<open>The errors that report silent audio.\<close>

definition silent_error :: "error \<Rightarrow> bool" where
  "silent_error e = (e = TooQuiet \<or> e = AppearsSilent)"

section \<open>Example inputs\<close>

definition empty_target :: spectrum where
  "empty_target =
     \<lparr> magnitudes = [], frequencies = [], sampleRate = Num 44100, fftSize = 0 \<rparr>"

definition zero_target :: spectrum where
  "zero_target =
     \<lparr> magnitudes = [Num 0], frequencies = [Num 0], sampleRate = Num 44100, fftSize = 2 \<rparr>"

text \<open>
  Two spectra of an 8-point transform at 800 Hz: a peak at bin 1 level with its
  neighbours, and one on a straight slope.
\<close>

definition flat_peak :: spectrum where
  "flat_peak =
     \<lparr> magnitudes = [Num 1, Num 1, Num 1, Num 0],
       frequencies = [Num 0, Num 100, Num 200, Num 300],
       sampleRate = Num 800, fftSize = 8 \<rparr>"

definition straight_peak :: spectrum where
  "straight_peak =
     \<lparr> magnitudes = [Num 2, Num 1, Num 0, Num 0],
       frequencies = [Num 0, Num 100, Num 200, Num 300],
       sampleRate = Num 800, fftSize = 8 \<rparr>"

text \<open>The engine as \<open>new AudioEngine()\<close> and \<open>initialize()\<close> leave it.\<close>

definition default_engine :: engine where
  "default_engine = initialize constructor"

text \<open>
  A run of two rounds with no target: the random numbers pick \<open>filterFreq\<close> twice,
  lower it by 780 in the first round and leave it in the second; both trials are
  accepted, and neither is better than the start.
\<close>

definition example_random :: "nat \<Rightarrow> real" where
  "example_random n = (if n = 4 then 1 / 2 else 0)"



text \<open>
  A run of one round that improves on the start: the target has magnitude 2 in bin 2,
  where the 440 Hz fundamental falls, and the random numbers raise \<open>distortionAmount\<close>
  from 0 to 0.064, which lifts that bin from 1 to 1.0192.
\<close>

definition improving_target :: spectrum where
  "improving_target =
     \<lparr> magnitudes = [Num 0, Num 0, Num 2], frequencies = [Num 0, Num 172, Num 344],
       sampleRate = Num 44032, fftSize = 256 \<rparr>"

definition improving_random :: "nat \<Rightarrow> real" where
  "improving_random n = (if n = 0 then 0.4 else 0.9)"

definition improved_params :: params where
  "improved_params = (currentParams constructor) \<lparr> distortionAmount := Num 0.064 \<rparr>"

definition improved_state :: anneal_state where
  "improved_state =
     \<lparr> curParams = improved_params,
       curEnergy = Num ((ln (1262 / 625) - ln 3) * (ln (1262 / 625) - ln 3) / 3),
       bestParams = improved_params,
       bestEnergy = Num ((ln (1262 / 625) - ln 3) * (ln (1262 / 625) - ln 3) / 3),
       draws = 2 \<rparr>"

text \<open>The engine after the improving run.\<close>

definition improved_engine :: engine where
  "improved_engine =
     \<lparr> graph = Some
         \<lparr> synth_oscillator = ''sawtooth'', envelope_attack = Num 0.01,
           envelope_decay = Num 0.2, envelope_sustain = Num 0.5,
           envelope_release = Num 0.5, filter_frequency = Num 2000,
           filter_Q = Num 1, distortion_distortion = Num 0.064,
           distortion_wet = Num 1, chorus_wet = Num 0,
           lfo_amplitude = Num 0, lfo_frequency = Num 5 \<rparr>,
       isInitialized = True, lockedFrequency = None, currentParams = improved_params \<rparr>"

text \<open>An analysis result with a negative pitch, and the engine configured with it.\<close>

definition negative_results :: analysis_results where
  "negative_results = \<lparr> detectedRelease = Num 0.5, isWide = False, pitchHz = Some (Num (- 100)) \<rparr>"

definition negative_engine :: engine where
  "negative_engine = default_engine \<lparr> lockedFrequency := Some (Num (- 100)) \<rparr>"

text \<open>
  An analyzer before and after \<open>initialize\<close>, a buffer of two channels that is loud
  enough, one that is too quiet (an RMS of 0.0001 in channel 0, that is -80 dB), and
  files that decode to them.
\<close>

definition new_analyzer :: analyzer where
  "new_analyzer = \<lparr> hasAudioContext = False \<rparr>"

definition ready_analyzer :: analyzer where
  "ready_analyzer = \<lparr> hasAudioContext = True \<rparr>"

definition loud_buffer :: audio_buffer where
  "loud_buffer = \<lparr> channelData = [[Num (1 / 2)], [Num (- 1 / 4)]], bufferRate = Num 44100 \<rparr>"

definition quiet_buffer :: audio_buffer where
  "quiet_buffer = \<lparr> channelData = [[Num (1 / 10000)], [Num 0]], bufferRate = Num 44100 \<rparr>"

definition loud_file :: audio_file where
  "loud_file = \<lparr> file_size = 1024, decoded = Some loud_buffer \<rparr>"

definition quiet_file :: audio_file where
  "quiet_file = \<lparr> file_size = 1024, decoded = Some quiet_buffer \<rparr>"

section \<open>Arithmetic of the number model\<close>






section \<open>Properties of the spectral model\<close>

lemma length_spectrum_add: "length (spectrum_add sp bin v) = length sp"
  by (simp add: spectrum_add_def split: jsnum.splits)

lemma length_harmonic_step: "length (harmonic_step f p i sp) = length sp"
  by (simp add: harmonic_step_def Let_def length_spectrum_add)

lemma length_fold_harmonic_step: "length (fold (harmonic_step f p) hs sp) = length sp"
  by (induction hs arbitrary: sp) (simp_all add: length_harmonic_step)

lemma length_estimateSynthSpectrum: "length (estimateSynthSpectrum eng p) = 128"
  by (simp add: estimateSynthSpectrum_def Let_def length_fold_harmonic_step)












section \<open>The energy of an empty target\<close>

text \<open>
  Claim C9. A target whose magnitudes are empty makes the comparison length 0, and
  \<open>calculateEnergy\<close> returns \<open>0 / 0 = NaN\<close>; so a finite energy for a supplied target
  needs at least one magnitude bin.
\<close>

theorem calculateEnergy_empty_target:
  "(magnitudes t = [] \<longrightarrow> calculateEnergy eng p (Some t) = NaN) \<and>
   (is_finite (calculateEnergy eng p (Some t)) \<longrightarrow> 1 \<le> length (magnitudes t))"
proof -
  have nan: "calculateEnergy eng p (Some t) = NaN" if "magnitudes t = []"
    using that by (simp add: calculateEnergy_def Let_def inf_of_sign_def)
  have "magnitudes t \<noteq> []" if "is_finite (calculateEnergy eng p (Some t))"
    using that nan by auto
  then show ?thesis using nan by (auto simp: Suc_le_eq)
qed

lemma zero_target_energy:
  "calculateEnergy (initialize constructor) (currentParams constructor) (Some zero_target)
     = Num 0"
proof -
  have s0: "rd (estimateSynthSpectrum (initialize constructor) (currentParams constructor)) 0
              = Num 0"
    by code_simp
  have t0: "rd [Num 0] 0 = Num 0" by (simp add: rd_def)
  show ?thesis
    by (simp add: calculateEnergy_def Let_def length_estimateSynthSpectrum zero_target_def
        energy_term_def s0 t0 jsub_def)
qed

theorem calculateEnergy_empty_target_witness:
  "magnitudes empty_target = [] \<and>
   calculateEnergy (initialize constructor) (currentParams constructor) (Some empty_target)
     = NaN \<and>
   is_finite (calculateEnergy (initialize constructor) (currentParams constructor)
     (Some zero_target)) \<and>
   1 \<le> length (magnitudes zero_target)"
proof -
  have e: "magnitudes empty_target = []" by (simp add: empty_target_def)
  have f: "is_finite (calculateEnergy (initialize constructor) (currentParams constructor)
             (Some zero_target))"
    by (simp add: zero_target_energy)
  from calculateEnergy_empty_target
         [of empty_target "initialize constructor" "currentParams constructor"]
       calculateEnergy_empty_target
         [of zero_target "initialize constructor" "currentParams constructor"]
       e f
  show ?thesis by blast
qed

section \<open>The division in the pitch detector\<close>

text \<open>
  Claim C8 asks for a guarded division in the parabolic interpolation. The code divides
  by \<open>2 * (y0 - 2 * y1 + y2)\<close> as it is: a peak level with its two neighbours gives
  \<open>0 / 0\<close> and the pitch \<open>NaN\<close>, a peak on a straight slope gives \<open>2 / 0\<close> and the
  pitch \<open>Infinity\<close>.
\<close>

theorem detectPitch_unguarded:
  "detectPitch flat_peak = NaN \<and> detectPitch straight_peak = PosInf"
  by code_simp

section \<open>Properties of the annealing optimizer\<close>

subsection \<open>One round and the loop\<close>

lemma key_at_Some:
  assumes "0 \<le> r" "r < 1"
  shows "\<exists>k. key_at r = Some k"
proof -
  have "0 \<le> \<lfloor>r * 6\<rfloor>" using assms by simp
  moreover have "\<lfloor>r * 6\<rfloor> < 6" using assms by (simp add: floor_less_iff)
  ultimately show ?thesis
    by (simp add: key_at_def paramKeys_def)
qed

lemma is_finite_iff: "is_finite x \<longleftrightarrow> (\<exists>a. x = Num a)"
  by (cases x) simp_all

lemma is_finite_ops:
  "is_finite a \<Longrightarrow> is_finite b \<Longrightarrow> is_finite (jmul a b)"
  "is_finite a \<Longrightarrow> is_finite b \<Longrightarrow> is_finite (jsub a b)"
  by (auto simp: is_finite_iff jsub_def)

lemma temperature_finite:
  assumes "0 < steps"
  shows "is_finite (temperature steps step)"
  using assms by (simp add: temperature_def startTemp_def endTemp_def)

lemma range_finite: "is_finite (range_min k)" "is_finite (range_max k)"
  by (cases k; simp)+

lemma mutation_finite:
  assumes "0 < steps"
  shows "is_finite (jmul (jmul (jmul (jsub (Num r) (Num 0.5)) (jsub (range_max k) (range_min k)))
                 (Num 0.2)) (temperature steps step))"
  by (intro is_finite_ops temperature_finite assms range_finite) simp_all

lemma clamp_in_range:
  "x \<noteq> NaN \<Longrightarrow> in_range k (jmax (range_min k) (jmin (range_max k) (jadd x (Num m))))"
  by (cases k; cases x) (simp_all add: in_range_def jmax_def jmin_def)

lemma get_set_param:
  "get_param k' (set_param k v p) = (if k' = k then v else get_param k' p)"
  by (cases k; cases k') simp_all

text \<open>What a round can do to the state.\<close>

lemma anneal_step_cases:
  assumes "anneal_step eng tgt rnd steps step st = Inr st'"
  obtains (reject) n where "st' = st \<lparr> draws := n \<rparr>"
  | (accept) k newParams n where
      "newParams = set_param k
         (jmax (range_min k) (jmin (range_max k) (jadd (get_param k (curParams st))
            (jmul (jmul (jmul (jsub (Num (rnd (draws st + 1))) (Num 0.5))
               (jsub (range_max k) (range_min k))) (Num 0.2)) (temperature steps step)))))
         (curParams st)"
      "st' = accept newParams (calculateEnergy eng newParams tgt) n st"
  using assms
  by (auto simp: anneal_step_def Let_def split: option.splits if_splits)

lemma anneal_step_total:
  assumes "random_ok rnd"
  shows "\<exists>st'. anneal_step eng tgt rnd steps step st = Inr st'"
proof -
  obtain k where "key_at (rnd (draws st)) = Some k"
    using assms key_at_Some unfolding random_ok_def by blast
  then show ?thesis by (simp add: anneal_step_def Let_def)
qed

lemma anneal_loop_total:
  "random_ok rnd \<Longrightarrow>
   \<exists>tr. anneal_loop eng tgt rnd steps step st = Inr tr \<and> length tr = steps - step"
proof (induction eng tgt rnd steps step st rule: anneal_loop.induct)
  case (1 eng tgt rnd steps step st)
  show ?case
  proof (cases "step < steps")
    case False
    then show ?thesis by (simp add: anneal_loop.simps [of _ _ _ steps step])
  next
    case True
    obtain st' where s: "anneal_step eng tgt rnd steps step st = Inr st'"
      using anneal_step_total [OF "1.prems"] by blast
    from "1.IH" [OF True s "1.prems"] obtain tr where
      "anneal_loop eng tgt rnd steps (Suc step) st' = Inr tr" "length tr = steps - Suc step"
      by blast
    then show ?thesis using True s
      by (simp add: anneal_loop.simps [of _ _ _ steps step])
  qed
qed

lemma anneal_loop_Nil:
  "\<not> step < steps \<Longrightarrow> anneal_loop eng tgt rnd steps step st = Inr []"
  by (simp add: anneal_loop.simps [of _ _ _ steps step])

lemma anneal_loop_Cons:
  assumes "step < steps" "anneal_loop eng tgt rnd steps step st = Inr tr"
  obtains st' tr' where "tr = st' # tr'" "anneal_step eng tgt rnd steps step st = Inr st'"
    "anneal_loop eng tgt rnd steps (Suc step) st' = Inr tr'"
  using assms
  by (auto simp: anneal_loop.simps [of _ _ _ steps step] split: sum.splits)

lemma accept_best:
  "bestParams (accept newParams newEnergy n st) =
     (if jlt newEnergy (bestEnergy st) then newParams else bestParams st)"
  "bestEnergy (accept newParams newEnergy n st) =
     (if jlt newEnergy (bestEnergy st) then newEnergy else bestEnergy st)"
  "curParams (accept newParams newEnergy n st) = newParams"
  "curEnergy (accept newParams newEnergy n st) = newEnergy"
  by (simp_all add: accept_def)



lemma run_result:
  assumes "isInitialized eng" "graph eng \<noteq> None" "random_ok rnd"
  shows "\<exists>tr eng'.
    anneal_loop eng tgt rnd steps 0 (initial_state eng tgt) = Inr tr \<and>
    length tr = steps \<and>
    applyParams eng (bestParams (last (initial_state eng tgt # tr))) = Inr eng' \<and>
    runSimulatedAnnealing eng tgt steps cb rnd =
       Inr (eng', Some (bestParams (last (initial_state eng tgt # tr))),
            if cb then progress_calls steps tr else [])"
proof -
  obtain tr where tr: "anneal_loop eng tgt rnd steps 0 (initial_state eng tgt) = Inr tr"
    "length tr = steps"
    using anneal_loop_total [OF assms(3), of eng tgt steps 0] by auto
  obtain eng' where "applyParams eng (bestParams (last (initial_state eng tgt # tr))) = Inr eng'"
    using assms(2) by (auto simp: applyParams_def Let_def)
  then show ?thesis using tr assms(1)
    by (simp add: runSimulatedAnnealing_def Let_def)
qed

subsection \<open>The best tracker\<close>







subsection \<open>The bounds\<close>

lemma within_bounds_iff: "within_bounds p \<longleftrightarrow> (\<forall>k. in_range k (get_param k p))"
proof
  assume w: "within_bounds p"
  show "\<forall>k. in_range k (get_param k p)"
  proof
    fix k show "in_range k (get_param k p)"
      using w by (cases k)
        (auto simp: within_bounds_def num_between_def in_range_def split: jsnum.splits)
  qed
next
  assume a: "\<forall>k. in_range k (get_param k p)"
  have "num_between 200 8000 (filterFreq p)"
    using a [rule_format, of FilterFreq] by (cases "filterFreq p") (auto simp: in_range_def num_between_def)
  moreover have "num_between 0.5 10 (filterQ p)"
    using a [rule_format, of FilterQ] by (cases "filterQ p") (auto simp: in_range_def num_between_def)
  moreover have "num_between 0 0.8 (distortionAmount p)"
    using a [rule_format, of DistortionAmount]
    by (cases "distortionAmount p") (auto simp: in_range_def num_between_def)
  moreover have "num_between 0.001 0.5 (attack p)"
    using a [rule_format, of Attack] by (cases "attack p") (auto simp: in_range_def num_between_def)
  moreover have "num_between 0.01 1 (decay p)"
    using a [rule_format, of Decay] by (cases "decay p") (auto simp: in_range_def num_between_def)
  moreover have "num_between 0.1 1 (sustain p)"
    using a [rule_format, of Sustain] by (cases "sustain p") (auto simp: in_range_def num_between_def)
  ultimately show "within_bounds p" by (simp add: within_bounds_def)
qed

lemma mutated_param_ok:
  assumes "0 < steps" "param_ok start p"
  shows "param_ok start (set_param k
         (jmax (range_min k) (jmin (range_max k) (jadd (get_param k p)
            (jmul (jmul (jmul (jsub (Num r) (Num 0.5))
               (jsub (range_max k) (range_min k))) (Num 0.2)) (temperature steps step)))))
         p)"
proof -
  obtain m where m: "jmul (jmul (jmul (jsub (Num r) (Num 0.5))
       (jsub (range_max k) (range_min k))) (Num 0.2)) (temperature steps step) = Num m"
    using mutation_finite [OF assms(1), of r k step] unfolding is_finite_iff by blast
  show ?thesis
    unfolding param_ok_def m
  proof
    fix k'
    show "get_param k' (set_param k (jmax (range_min k) (jmin (range_max k)
             (jadd (get_param k p) (Num m)))) p) = get_param k' start \<or>
          in_range k' (get_param k' (set_param k (jmax (range_min k) (jmin (range_max k)
             (jadd (get_param k p) (Num m)))) p))"
    proof (cases "k' = k")
      case False
      then show ?thesis using assms(2) by (simp add: get_set_param param_ok_def)
    next
      case True
      show ?thesis
      proof (cases "get_param k p = NaN")
        case n: True
        then have "get_param k start = NaN"
          using assms(2) unfolding param_ok_def in_range_def by metis
        then show ?thesis using True n by (simp add: get_set_param jmax_def jmin_def)
      next
        case False
        then show ?thesis using True by (simp add: get_set_param clamp_in_range)
      qed
    qed
  qed
qed

lemma step_param_ok:
  assumes "anneal_step eng tgt rnd steps step st = Inr st'" "0 < steps"
    and "param_ok start (curParams st)" "param_ok start (bestParams st)"
  shows "param_ok start (curParams st') \<and> param_ok start (bestParams st')"
  using assms(1)
proof (cases rule: anneal_step_cases)
  case (reject n)
  then show ?thesis using assms(3,4) by simp
next
  case (accept k newParams n)
  have "param_ok start newParams"
    unfolding accept(1) by (rule mutated_param_ok [OF assms(2,3)])
  then show ?thesis using accept(2) assms(4) by (simp add: accept_best)
qed

lemma loop_param_ok:
  "anneal_loop eng tgt rnd steps step st = Inr tr \<Longrightarrow>
   param_ok start (curParams st) \<Longrightarrow> param_ok start (bestParams st) \<Longrightarrow>
   param_ok start (bestParams (last (st # tr)))"
proof (induction eng tgt rnd steps step st arbitrary: tr rule: anneal_loop.induct)
  case (1 eng tgt rnd steps step st)
  show ?case
  proof (cases "step < steps")
    case False
    then have "tr = []" using "1.prems"(1) by (simp add: anneal_loop_Nil)
    then show ?thesis using "1.prems"(3) by simp
  next
    case True
    from anneal_loop_Cons [OF True "1.prems"(1)] obtain st' tr' where
      tr: "tr = st' # tr'" and s: "anneal_step eng tgt rnd steps step st = Inr st'"
      and l: "anneal_loop eng tgt rnd steps (Suc step) st' = Inr tr'" by blast
    have "0 < steps" using True by simp
    from step_param_ok [OF s this "1.prems"(2,3)]
    have "param_ok start (bestParams (last (st' # tr')))"
      using "1.IH" [OF True s l] by blast
    then show ?thesis using tr by simp
  qed
qed

subsection \<open>Two runs\<close>

lemma random_ok_example: "random_ok example_random"
  by (simp add: random_ok_def example_random_def)

lemma default_engine_ready: "isInitialized default_engine" "graph default_engine \<noteq> None"
  by (simp_all add: default_engine_def initialize_def constructor_def)









lemma est0:
  "rd (estimateSynthSpectrum default_engine (currentParams constructor)) 0 = Num 0"
  "rd (estimateSynthSpectrum default_engine (currentParams constructor)) (Suc 0) = Num 0"
  "rd (estimateSynthSpectrum default_engine (currentParams constructor)) (Suc (Suc 0)) = Num 1"
  by code_simp+

lemma est1:
  "rd (estimateSynthSpectrum default_engine improved_params) 0 = Num 0"
  "rd (estimateSynthSpectrum default_engine improved_params) (Suc 0) = Num 0"
  "rd (estimateSynthSpectrum default_engine improved_params) (Suc (Suc 0)) = Num (637 / 625)"
  by code_simp+

lemma rd_target:
  "rd [Num 0, Num 0, Num 2] 0 = Num 0"
  "rd [Num 0, Num 0, Num 2] (Suc 0) = Num 0"
  "rd [Num 0, Num 0, Num 2] (Suc (Suc 0)) = Num 2"
  by (simp_all add: rd_def)

lemma energy0:
  "calculateEnergy default_engine (currentParams constructor) (Some improving_target)
     = Num ((ln 2 - ln 3) * (ln 2 - ln 3) / 3)"
  by (simp add: calculateEnergy_def Let_def length_estimateSynthSpectrum improving_target_def
      energy_term_def jsub_def est0 rd_target)

lemma energy1:
  "calculateEnergy default_engine improved_params (Some improving_target)
     = Num ((ln (1262 / 625) - ln 3) * (ln (1262 / 625) - ln 3) / 3)"
  by (simp add: calculateEnergy_def Let_def length_estimateSynthSpectrum improving_target_def
      energy_term_def jsub_def est1 rd_target)

lemma energy_improves:
  "(ln (1262 / 625) - ln 3) * (ln (1262 / 625) - ln 3) / 3 < (ln 2 - ln 3) * (ln 2 - ln (3::real)) / 3"
proof -
  have a: "ln 2 < ln (1262 / 625 :: real)" by (subst ln_less_cancel_iff) simp_all
  have b: "ln (1262 / 625) < ln (3::real)" by (subst ln_less_cancel_iff) simp_all
  have "(ln 3 - ln (1262 / 625)) * (ln 3 - ln (1262 / 625)) < (ln 3 - ln 2) * (ln 3 - ln (2::real))"
    using a b by (intro mult_strict_mono) simp_all
  moreover have "(ln (1262 / 625) - ln 3) * (ln (1262 / 625) - ln 3) =
      (ln 3 - ln (1262 / 625)) * (ln 3 - ln (1262 / 625 :: real))"
    by (simp add: algebra_simps)
  moreover have "(ln 2 - ln 3) * (ln 2 - ln 3) = (ln 3 - ln 2) * (ln 3 - ln (2 :: real))"
    by (simp add: algebra_simps)
  ultimately show ?thesis by (simp add: divide_strict_right_mono)
qed

lemma key_at_improving: "key_at (2 / 5) = Some DistortionAmount"
  by (simp add: key_at_def paramKeys_def)

lemma temperature_1_0: "temperature (Suc 0) 0 = Num 1"
  by (simp add: temperature_def startTemp_def endTemp_def)

lemma improved_mutation:
  "(currentParams constructor)
     \<lparr> distortionAmount := jmax (Num 0) (jmin (Num (4 / 5))
         (jadd (distortionAmount (currentParams constructor)) (Num (8 / 125)))) \<rparr>
   = improved_params"
  by (simp add: improved_params_def constructor_def jmax_def jmin_def)

lemma improving_step:
  "anneal_step default_engine (Some improving_target) improving_random (Suc 0) 0
     (initial_state default_engine (Some improving_target)) = Inr improved_state"
proof -
  have cp: "currentParams default_engine = currentParams constructor"
    by (simp add: default_engine_def initialize_def)
  show ?thesis
    using energy_improves
    by (simp add: anneal_step_def Let_def improving_random_def key_at_improving temperature_1_0
      initial_state_def cp improved_mutation energy0 energy1 jsub_def accept_def
      improved_state_def)
qed

lemma improving_loop:
  "anneal_loop default_engine (Some improving_target) improving_random (Suc 0) 0
     (initial_state default_engine (Some improving_target)) = Inr [improved_state]"
  by (simp add: anneal_loop.simps [of _ _ _ "Suc 0"] improving_step)

lemma improving_run:
  "\<exists>eng'. runSimulatedAnnealing default_engine (Some improving_target) (Suc 0) cb improving_random
     = Inr (eng', Some improved_params, if cb then progress_calls (Suc 0) [improved_state] else [])
     \<and> currentParams eng' = improved_params"
  using default_engine_ready
  by (auto simp: runSimulatedAnnealing_def Let_def improving_loop applyParams_def
      improved_state_def)

lemma random_ok_improving: "random_ok improving_random"
  by (simp add: random_ok_def improving_random_def)

lemma default_within_bounds: "within_bounds (currentParams default_engine)"
  by (simp add: within_bounds_def num_between_def default_engine_def initialize_def
      constructor_def)

subsection \<open>The claims on the optimizer\<close>



text \<open>
  Claim C3. Whatever the number of rounds and the random numbers, every mutable
  parameter that the returned set has changed from the start lies within its declared
  range, and when the engine's parameters start within the bounds of the specification
  (as the constructor sets them), the returned set is within them.
\<close>

theorem annealing_bounded:
  assumes "isInitialized eng" and "graph eng \<noteq> None" and "random_ok rnd"
  shows "\<exists>eng' best calls.
     runSimulatedAnnealing eng tgt steps cb rnd = Inr (eng', Some best, calls) \<and>
     (within_bounds (currentParams eng) \<longrightarrow> within_bounds best) \<and>
     (\<forall>k. get_param k best \<noteq> get_param k (currentParams eng) \<longrightarrow>
          in_range k (get_param k best))"
proof -
  let ?st0 = "initial_state eng tgt"
  obtain tr eng' where
    tr: "anneal_loop eng tgt rnd steps 0 ?st0 = Inr tr"
    and run: "runSimulatedAnnealing eng tgt steps cb rnd =
       Inr (eng', Some (bestParams (last (?st0 # tr))),
            if cb then progress_calls steps tr else [])"
    using run_result [OF assms, of tgt steps cb] by blast
  have "param_ok (currentParams eng) (currentParams eng)" by (simp add: param_ok_def)
  then have ok: "param_ok (currentParams eng) (bestParams (last (?st0 # tr)))"
    using loop_param_ok [OF tr, of "currentParams eng"] by (simp add: initial_state_def)
  have 1: "within_bounds (currentParams eng) \<longrightarrow> within_bounds (bestParams (last (?st0 # tr)))"
    using ok unfolding within_bounds_iff param_ok_def by metis
  have 2: "\<forall>k. get_param k (bestParams (last (?st0 # tr))) \<noteq> get_param k (currentParams eng) \<longrightarrow>
          in_range k (get_param k (bestParams (last (?st0 # tr))))"
    using ok unfolding param_ok_def by metis
  from run 1 2 show ?thesis by blast
qed

theorem annealing_bounded_witness:
  "isInitialized default_engine \<and> graph default_engine \<noteq> None \<and>
   random_ok improving_random \<and> within_bounds (currentParams default_engine) \<and>
   (\<exists>eng' best calls.
      runSimulatedAnnealing default_engine (Some improving_target) (Suc 0) True improving_random
        = Inr (eng', Some best, calls) \<and>
      best = improved_params \<and> within_bounds best \<and>
      get_param DistortionAmount best
        \<noteq> get_param DistortionAmount (currentParams default_engine) \<and>
      in_range DistortionAmount (get_param DistortionAmount best))"
proof -
  from annealing_bounded [OF default_engine_ready random_ok_improving,
      of "Some improving_target" "Suc 0" True]
  obtain eng' best calls where
    run: "runSimulatedAnnealing default_engine (Some improving_target) (Suc 0) True
            improving_random = Inr (eng', Some best, calls)"
    and w: "within_bounds (currentParams default_engine) \<longrightarrow> within_bounds best"
    and c: "\<forall>k. get_param k best \<noteq> get_param k (currentParams default_engine) \<longrightarrow>
              in_range k (get_param k best)"
    by blast
  have b: "best = improved_params"
    using run improving_run [of True] by auto
  have d: "get_param DistortionAmount best
        \<noteq> get_param DistortionAmount (currentParams default_engine)"
    by (simp add: b improved_params_def default_engine_def initialize_def constructor_def)
  from default_engine_ready random_ok_improving default_within_bounds run b w c d
  show ?thesis by blast
qed

subsection \<open>A run leaves the best parameters applied\<close>

lemma applyParams_effect:
  assumes "applyParams eng p = Inr eng'"
  shows "currentParams eng' = p \<and> isInitialized eng' = isInitialized eng \<and>
     lockedFrequency eng' = lockedFrequency eng \<and>
     (\<exists>g g'. graph eng = Some g \<and> graph eng' = Some g' \<and>
        synth_oscillator g' = (if oscillatorType p \<noteq> [] then oscillatorType p
                               else synth_oscillator g) \<and>
        filter_frequency g' = filterFreq p \<and> filter_Q g' = filterQ p \<and>
        distortion_distortion g' = distortionAmount p \<and>
        distortion_wet g' = (if jgt (distortionAmount p) (Num 0) then Num 1 else Num 0) \<and>
        chorus_wet g' = chorusWet p \<and>
        envelope_attack g' = attack p \<and> envelope_decay g' = decay p \<and>
        envelope_sustain g' = sustain p \<and> envelope_release g' = release p \<and>
        lfo_amplitude g' = lfo_amplitude g \<and> lfo_frequency g' = lfo_frequency g)"
  using assms by (auto simp: applyParams_def Let_def split: option.splits)

lemma apply_improved:
  "applyParams default_engine improved_params = Inr improved_engine"
  by (simp add: applyParams_def Let_def improved_engine_def default_engine_def initialize_def
      constructor_def improved_params_def jgt_def)

lemma improving_run_engine:
  "runSimulatedAnnealing default_engine (Some improving_target) (Suc 0) False improving_random
     = Inr (improved_engine, Some improved_params, [])"
  using default_engine_ready
  by (simp add: runSimulatedAnnealing_def Let_def improving_loop apply_improved
      improved_state_def)

text \<open>
  Claim C2, as the code has it. The run ends with \<open>applyParams(bestParams)\<close>: besides
  calling the progress callback and returning the best parameter set, it leaves the
  engine with that set as its current parameters and with the filter, the distortion,
  the chorus and the envelope set from it; the locked frequency, the initialized flag
  and the LFO stay as they were. On an engine that is not initialized it returns
  \<open>null\<close> and changes nothing.
\<close>

theorem annealing_applies_best:
  "(\<not> isInitialized eng \<longrightarrow> runSimulatedAnnealing eng tgt steps cb rnd = Inr (eng, None, [])) \<and>
   (isInitialized eng \<and> graph eng \<noteq> None \<and> random_ok rnd \<longrightarrow>
      (\<exists>eng' best calls.
         runSimulatedAnnealing eng tgt steps cb rnd = Inr (eng', Some best, calls))) \<and>
   (runSimulatedAnnealing eng tgt steps cb rnd = Inr (eng', Some best, calls) \<longrightarrow>
      applyParams eng best = Inr eng' \<and>
      currentParams eng' = best \<and> isInitialized eng' = isInitialized eng \<and>
      lockedFrequency eng' = lockedFrequency eng \<and>
      (\<exists>g g'. graph eng = Some g \<and> graph eng' = Some g' \<and>
        synth_oscillator g' = (if oscillatorType best \<noteq> [] then oscillatorType best
                               else synth_oscillator g) \<and>
        filter_frequency g' = filterFreq best \<and> filter_Q g' = filterQ best \<and>
        distortion_distortion g' = distortionAmount best \<and>
        distortion_wet g' = (if jgt (distortionAmount best) (Num 0) then Num 1 else Num 0) \<and>
        chorus_wet g' = chorusWet best \<and>
        envelope_attack g' = attack best \<and> envelope_decay g' = decay best \<and>
        envelope_sustain g' = sustain best \<and> envelope_release g' = release best \<and>
        lfo_amplitude g' = lfo_amplitude g \<and> lfo_frequency g' = lfo_frequency g))"
proof -
  have "applyParams eng best = Inr eng'"
    if "runSimulatedAnnealing eng tgt steps cb rnd = Inr (eng', Some best, calls)"
    using that
    by (auto simp: runSimulatedAnnealing_def Let_def split: if_splits sum.splits)
  moreover have "\<exists>eng' best calls.
         runSimulatedAnnealing eng tgt steps cb rnd = Inr (eng', Some best, calls)"
    if "isInitialized eng" "graph eng \<noteq> None" "random_ok rnd"
    using run_result [OF that, of tgt steps cb] by blast
  moreover have "runSimulatedAnnealing eng tgt steps cb rnd = Inr (eng, None, [])"
    if "\<not> isInitialized eng"
    using that by (simp add: runSimulatedAnnealing_def)
  ultimately show ?thesis
    using applyParams_effect [of eng best eng'] by blast
qed

theorem annealing_applies_best_witness:
  "\<not> isInitialized constructor \<and>
   isInitialized default_engine \<and> graph default_engine \<noteq> None \<and>
   random_ok improving_random \<and>
   runSimulatedAnnealing constructor (Some improving_target) (Suc 0) False improving_random
     = Inr (constructor, None, []) \<and>
   runSimulatedAnnealing default_engine (Some improving_target) (Suc 0) False improving_random
     = Inr (improved_engine, Some improved_params, []) \<and>
   applyParams default_engine improved_params = Inr improved_engine \<and>
   currentParams improved_engine = improved_params \<and>
   lockedFrequency improved_engine = lockedFrequency default_engine"
proof -
  have "\<not> isInitialized constructor" by (simp add: constructor_def)
  then show ?thesis
    using improving_run_engine default_engine_ready random_ok_improving
      annealing_applies_best [of constructor "Some improving_target" "Suc 0" False
        improving_random]
      annealing_applies_best [of default_engine "Some improving_target" "Suc 0" False
        improving_random improved_engine improved_params "[]"]
    by blast
qed

text \<open>
  The engine is not left unchanged: the improving run leaves
  \<open>distortionAmount = 0.064\<close> in the current parameters and in the distortion node.
\<close>

theorem side_effect_counterexample:
  "runSimulatedAnnealing default_engine (Some improving_target) (Suc 0) False improving_random
     = Inr (improved_engine, Some improved_params, []) \<and>
   currentParams improved_engine \<noteq> currentParams default_engine \<and>
   graph improved_engine \<noteq> graph default_engine"
  using improving_run_engine
  by (simp add: improved_engine_def default_engine_def initialize_def constructor_def
      improved_params_def)

subsection \<open>The energy of a run\<close>

lemma fold_energy_term:
  "n \<le> length xs \<Longrightarrow> n \<le> length ys \<Longrightarrow>
   fold (energy_term xs ys) [0..<n] a =
   fold (\<lambda>x acc. jadd acc x) (map log_error (take n (zip xs ys))) a"
proof (induction n)
  case 0
  then show ?case by simp
next
  case (Suc n)
  then have "take (Suc n) (zip xs ys) = take n (zip xs ys) @ [(xs ! n, ys ! n)]"
    by (simp add: take_Suc_conv_app_nth)
  then show ?case using Suc
    by (simp add: energy_term_def log_error_def rd_def Let_def)
qed

lemma no_target_step:
  assumes "anneal_step eng None rnd steps step st = Inr st'" "bestEnergy st = Num 1"
  shows "bestParams st' = bestParams st \<and> bestEnergy st' = Num 1"
  using assms(1)
  by (cases rule: anneal_step_cases) (simp_all add: assms(2) accept_best calculateEnergy_def)

lemma no_target_loop:
  "anneal_loop eng None rnd steps step st = Inr tr \<Longrightarrow> bestEnergy st = Num 1 \<Longrightarrow>
   bestParams (last (st # tr)) = bestParams st"
proof (induction eng "None :: spectrum option" rnd steps step st arbitrary: tr
    rule: anneal_loop.induct)
  case (1 eng rnd steps step st)
  show ?case
  proof (cases "step < steps")
    case False
    then have "tr = []" using "1.prems"(1) by (simp add: anneal_loop_Nil)
    then show ?thesis by simp
  next
    case True
    from anneal_loop_Cons [OF True "1.prems"(1)] obtain st' tr' where
      tr: "tr = st' # tr'" and s: "anneal_step eng None rnd steps step st = Inr st'"
      and l: "anneal_loop eng None rnd steps (Suc step) st' = Inr tr'" by blast
    from no_target_step [OF s "1.prems"(2)] "1.hyps" [OF True s l]
    show ?thesis using tr by simp
  qed
qed

text \<open>
  Claim C5. \<open>calculateEnergy\<close> returns 1 when no target is supplied, and otherwise the
  mean squared error of \<open>log(mag + 1)\<close> between the estimated spectrum and the target's
  magnitudes over the first \<open>min(64, len(estimated), len(target))\<close> bins. A search
  with no target does not fail: it returns the parameters it started from.
\<close>

theorem calculateEnergy_spec:
  "calculateEnergy eng p None = Num 1 \<and>
   calculateEnergy eng p (Some t) = mse_log (estimateSynthSpectrum eng p) (magnitudes t) \<and>
   (isInitialized eng \<and> graph eng \<noteq> None \<and> random_ok rnd \<longrightarrow>
      (\<exists>eng' calls. runSimulatedAnnealing eng None steps cb rnd
          = Inr (eng', Some (currentParams eng), calls)))"
proof -
  let ?n = "min (min (length (estimateSynthSpectrum eng p)) (length (magnitudes t))) 64"
  have "calculateEnergy eng p (Some t) = mse_log (estimateSynthSpectrum eng p) (magnitudes t)"
    using fold_energy_term [of ?n "estimateSynthSpectrum eng p" "magnitudes t" "Num 0"]
    by (simp add: calculateEnergy_def mse_log_def Let_def jsum_def min.commute min.left_commute)
  moreover have "\<exists>eng' calls. runSimulatedAnnealing eng None steps cb rnd
          = Inr (eng', Some (currentParams eng), calls)"
    if a: "isInitialized eng" "graph eng \<noteq> None" "random_ok rnd"
  proof -
    obtain tr eng' where
      tr: "anneal_loop eng None rnd steps 0 (initial_state eng None) = Inr tr"
      and run: "runSimulatedAnnealing eng None steps cb rnd =
         Inr (eng', Some (bestParams (last (initial_state eng None # tr))),
              if cb then progress_calls steps tr else [])"
      using run_result [OF a, of None steps cb] by blast
    have "bestParams (last (initial_state eng None # tr)) = currentParams eng"
      using no_target_loop [OF tr] by (simp add: initial_state_def calculateEnergy_def)
    then show ?thesis using run by simp
  qed
  ultimately show ?thesis by (simp add: calculateEnergy_def)
qed

theorem calculateEnergy_spec_witness:
  "isInitialized default_engine \<and> graph default_engine \<noteq> None \<and> random_ok example_random \<and>
   calculateEnergy default_engine (currentParams constructor) None = Num 1 \<and>
   calculateEnergy default_engine (currentParams constructor) (Some improving_target) =
     mse_log (estimateSynthSpectrum default_engine (currentParams constructor))
       (magnitudes improving_target) \<and>
   (\<exists>eng' calls. runSimulatedAnnealing default_engine None 2 True example_random
      = Inr (eng', Some (currentParams default_engine), calls))"
  using calculateEnergy_spec [of default_engine "currentParams constructor" improving_target
      example_random 2 True]
    default_engine_ready random_ok_example
  by blast

subsection \<open>The fundamental\<close>

text \<open>The energy, a round and the loop read the engine's locked frequency only.\<close>

lemma estimate_cong:
  "fundamental eng = fundamental eng2 \<Longrightarrow>
   estimateSynthSpectrum eng = estimateSynthSpectrum eng2"
  by (intro ext) (simp add: estimateSynthSpectrum_def)

lemma energy_cong:
  assumes "fundamental eng = fundamental eng2"
  shows "calculateEnergy eng = calculateEnergy eng2"
  unfolding calculateEnergy_def estimate_cong [OF assms] by (rule refl)

lemma step_cong:
  assumes "fundamental eng = fundamental eng2"
  shows "anneal_step eng = anneal_step eng2"
  unfolding anneal_step_def energy_cong [OF assms] by (rule refl)

lemma loop_cong:
  "fundamental eng = fundamental eng2 \<Longrightarrow>
   anneal_loop eng tgt rnd steps step st = anneal_loop eng2 tgt rnd steps step st"
proof (induction eng tgt rnd steps step st rule: anneal_loop.induct)
  case (1 eng tgt rnd steps step st)
  show ?case
  proof (cases "step < steps")
    case False
    then show ?thesis by (simp add: anneal_loop_Nil)
  next
    case True
    show ?thesis
    proof (cases "anneal_step eng tgt rnd steps step st")
      case (Inl e)
      then show ?thesis using True step_cong [OF "1.prems"]
        by (simp add: anneal_loop.simps [of _ _ _ steps step])
    next
      case (Inr st')
      from "1.IH" [OF True Inr "1.prems"] Inr True step_cong [OF "1.prems"]
      show ?thesis by (simp add: anneal_loop.simps [of _ _ _ steps step])
    qed
  qed
qed

lemma fundamental_falsy:
  assumes "lockedFrequency eng = None \<or> lockedFrequency eng = Some (Num 0) \<or>
           lockedFrequency eng = Some NaN"
  shows "fundamental eng = Num 440"
    and "fundamental (eng \<lparr> lockedFrequency := Some (Num 440) \<rparr>) = Num 440"
  using assms by (auto simp: fundamental_def truthy_def)

text \<open>
  Claim C10, as the code has it. \<open>estimateSynthSpectrum\<close> falls back to 440 Hz exactly
  when the locked frequency is falsy: unset or \<open>null\<close>, zero, or \<open>NaN\<close>. The spectrum,
  and every run, is then what it is for an engine locked at 440 Hz; so a run before
  \<open>configure\<close>, which finds the locked frequency \<open>null\<close>, searches against the 440 Hz
  harmonic series and returns. Any other number that \<open>configure\<close> has stored, a negative
  one too, is the fundamental.
\<close>

theorem fundamental_fallback:
  "(lockedFrequency eng = None \<or> lockedFrequency eng = Some (Num 0) \<or>
      lockedFrequency eng = Some NaN \<longrightarrow>
        fundamental eng = Num 440 \<and>
        estimateSynthSpectrum eng p =
          estimateSynthSpectrum (eng \<lparr> lockedFrequency := Some (Num 440) \<rparr>) p \<and>
        (isInitialized eng \<and> graph eng \<noteq> None \<and> random_ok rnd \<longrightarrow>
          (\<exists>eng' best calls.
             runSimulatedAnnealing eng tgt steps cb rnd = Inr (eng', Some best, calls) \<and>
             runSimulatedAnnealing (eng \<lparr> lockedFrequency := Some (Num 440) \<rparr>) tgt steps cb rnd
               = Inr (eng' \<lparr> lockedFrequency := Some (Num 440) \<rparr>, Some best, calls)))) \<and>
   (lockedFrequency eng = Some f \<and> f \<noteq> Num 0 \<and> f \<noteq> NaN \<longrightarrow> fundamental eng = f) \<and>
   lockedFrequency default_engine = None \<and>
   (isInitialized eng \<and> configure eng r = Inr eng2 \<longrightarrow> lockedFrequency eng2 = pitchHz r)"
proof -
  let ?eng2 = "eng \<lparr> lockedFrequency := Some (Num 440) \<rparr>"
  have run: "\<exists>eng' best calls.
       runSimulatedAnnealing eng tgt steps cb rnd = Inr (eng', Some best, calls) \<and>
       runSimulatedAnnealing ?eng2 tgt steps cb rnd
         = Inr (eng' \<lparr> lockedFrequency := Some (Num 440) \<rparr>, Some best, calls)"
    if f: "fundamental eng = fundamental ?eng2"
      and a: "isInitialized eng" "graph eng \<noteq> None" "random_ok rnd"
  proof -
    obtain tr eng' where
      tr: "anneal_loop eng tgt rnd steps 0 (initial_state eng tgt) = Inr tr"
      and ap: "applyParams eng (bestParams (last (initial_state eng tgt # tr))) = Inr eng'"
      and run: "runSimulatedAnnealing eng tgt steps cb rnd =
         Inr (eng', Some (bestParams (last (initial_state eng tgt # tr))),
              if cb then progress_calls steps tr else [])"
      using run_result [OF a, of tgt steps cb] by blast
    have i: "initial_state ?eng2 tgt = initial_state eng tgt"
      using energy_cong [OF f] by (simp add: initial_state_def)
    have l: "anneal_loop ?eng2 tgt rnd steps 0 (initial_state eng tgt) = Inr tr"
      using loop_cong [OF f, of tgt rnd steps 0] tr by simp
    have ap2: "applyParams ?eng2 (bestParams (last (initial_state eng tgt # tr)))
        = Inr (eng' \<lparr> lockedFrequency := Some (Num 440) \<rparr>)"
      using ap by (auto simp: applyParams_def Let_def split: option.splits)
    have "runSimulatedAnnealing ?eng2 tgt steps cb rnd =
         Inr (eng' \<lparr> lockedFrequency := Some (Num 440) \<rparr>,
              Some (bestParams (last (initial_state eng tgt # tr))),
              if cb then progress_calls steps tr else [])"
      using a(1) i l ap2 by (simp add: runSimulatedAnnealing_def Let_def)
    then show ?thesis using run by blast
  qed
  have falsy: "fundamental eng = Num 440 \<and>
        estimateSynthSpectrum eng p = estimateSynthSpectrum ?eng2 p \<and>
        (isInitialized eng \<and> graph eng \<noteq> None \<and> random_ok rnd \<longrightarrow>
          (\<exists>eng' best calls.
             runSimulatedAnnealing eng tgt steps cb rnd = Inr (eng', Some best, calls) \<and>
             runSimulatedAnnealing ?eng2 tgt steps cb rnd
               = Inr (eng' \<lparr> lockedFrequency := Some (Num 440) \<rparr>, Some best, calls)))"
    if "lockedFrequency eng = None \<or> lockedFrequency eng = Some (Num 0) \<or>
        lockedFrequency eng = Some NaN"
  proof -
    have f: "fundamental eng = Num 440" "fundamental ?eng2 = Num 440"
      using fundamental_falsy [OF that] by simp_all
    then have ff: "fundamental eng = fundamental ?eng2" by simp
    show ?thesis using f(1) estimate_cong [OF ff] run [OF ff] by auto
  qed
  have truthy: "fundamental eng = f" if "lockedFrequency eng = Some f" "f \<noteq> Num 0" "f \<noteq> NaN"
    using that by (simp add: fundamental_def truthy_def)
  have d: "lockedFrequency default_engine = None"
    by (simp add: default_engine_def initialize_def constructor_def)
  have c: "lockedFrequency eng2 = pitchHz r" if "isInitialized eng" "configure eng r = Inr eng2"
    using that by (auto simp: configure_def Let_def split: option.splits)
  from falsy truthy d c show ?thesis by blast
qed

theorem fundamental_fallback_witness:
  "lockedFrequency default_engine = None \<and>
   fundamental default_engine = Num 440 \<and>
   estimateSynthSpectrum default_engine (currentParams constructor) =
     estimateSynthSpectrum (default_engine \<lparr> lockedFrequency := Some (Num 440) \<rparr>)
       (currentParams constructor) \<and>
   isInitialized default_engine \<and> graph default_engine \<noteq> None \<and> random_ok example_random \<and>
   (\<exists>eng' best calls.
      runSimulatedAnnealing default_engine None 2 True example_random
        = Inr (eng', Some best, calls) \<and>
      runSimulatedAnnealing (default_engine \<lparr> lockedFrequency := Some (Num 440) \<rparr>) None 2 True
          example_random
        = Inr (eng' \<lparr> lockedFrequency := Some (Num 440) \<rparr>, Some best, calls)) \<and>
   lockedFrequency negative_engine = Some (Num (- 100)) \<and>
   fundamental negative_engine = Num (- 100) \<and>
   configure default_engine negative_results = Inr negative_engine \<and>
   lockedFrequency negative_engine = pitchHz negative_results"
proof -
  have n: "lockedFrequency negative_engine = Some (Num (- 100))"
    by (simp add: negative_engine_def)
  have c: "configure default_engine negative_results = Inr negative_engine"
    by code_simp
  have z: "Num (- 100) \<noteq> Num 0" "Num (- 100) \<noteq> NaN" by simp_all
  from fundamental_fallback [of default_engine "currentParams constructor" example_random
      None 2 True "Num (- 100)" negative_results negative_engine]
    fundamental_fallback [of negative_engine "currentParams constructor" example_random
      None 2 True "Num (- 100)" negative_results negative_engine]
    default_engine_ready random_ok_example n c z
  show ?thesis by blast
qed

text \<open>
  The fallback does not cover every pitch that is not positive: \<open>configure\<close> stores
  a negative pitch, the fundamental is then the negative pitch, not 440 Hz, and the
  estimated spectrum is not that of a 440 Hz series.
\<close>

theorem negative_pitch_counterexample:
  "configure default_engine negative_results = Inr negative_engine \<and>
   \<not> jgt (Num (- 100)) (Num 0) \<and>
   fundamental negative_engine \<noteq> Num 440 \<and>
   estimateSynthSpectrum negative_engine (currentParams constructor) \<noteq>
   estimateSynthSpectrum (default_engine \<lparr> lockedFrequency := Some (Num 440) \<rparr>)
     (currentParams constructor)"
proof -
  have a: "configure default_engine negative_results = Inr negative_engine"
    "\<not> jgt (Num (- 100)) (Num 0)" "fundamental negative_engine = Num (- 100)"
    "rd (estimateSynthSpectrum negative_engine (currentParams constructor)) 2 = Num 0"
    "rd (estimateSynthSpectrum (default_engine \<lparr> lockedFrequency := Some (Num 440) \<rparr>)
         (currentParams constructor)) 2 = Num 1"
    by code_simp+
  have "estimateSynthSpectrum negative_engine (currentParams constructor) \<noteq>
   estimateSynthSpectrum (default_engine \<lparr> lockedFrequency := Some (Num 440) \<rparr>)
     (currentParams constructor)"
    using a(4,5) by auto
  then show ?thesis using a(1,2,3) by simp
qed

section \<open>Properties of the analyzer\<close>

subsection \<open>Normalization\<close>

lemma fold_max_abs:
  "list_all is_finite xs \<Longrightarrow>
   fold (\<lambda>x maxAmplitude. jmax maxAmplitude (jabs x)) xs (Num a) =
   Num (fold max (map (\<lambda>x. \<bar>the_num x\<bar>) xs) a)"
proof (induction xs arbitrary: a)
  case Nil
  then show ?case by simp
next
  case (Cons x xs)
  then obtain y where y: "x = Num y" by (auto simp: is_finite_iff)
  have "jmax (Num a) (jabs x) = Num (max \<bar>y\<bar> a)"
    by (simp add: y jmax_def max_def)
  then show ?case using Cons by (simp add: y the_num_def)
qed

lemma fold_fold_concat: "fold (\<lambda>xs a. fold f xs a) xss a = fold f (concat xss) a"
  by (induction xss arbitrary: a) simp_all

lemma max_amplitude_peak:
  assumes "list_all is_finite (concat chs)"
  shows "max_amplitude chs = Num (peak_amplitude chs)"
  unfolding max_amplitude_def peak_amplitude_def fold_fold_concat Max.set_eq_fold
  by (rule fold_max_abs [OF assms])

lemma dbToLinear_finite: "dbToLinear (Num t) = Num (10 powr (t / 20))"
proof (cases "t / 20 = 0")
  case True
  then show ?thesis by (simp add: dbToLinear_def)
next
  case False
  show ?thesis
  proof (cases "is_int (t / 20)")
    case True
    then have e: "t / 20 = real_of_int \<lfloor>t / 20\<rfloor>" by (simp only: is_int_def)
    have "(10::real) powr (t / 20) = 10 powr real_of_int \<lfloor>t / 20\<rfloor>"
      by (rule arg_cong [OF e])
    also have "\<dots> = 10 powi \<lfloor>t / 20\<rfloor>"
      by (rule powr_real_of_int') (simp_all del: of_int_floor_cancel)
    finally have "(10::real) powr (t / 20) = 10 powi \<lfloor>t / 20\<rfloor>" .
    then show ?thesis using False True by (simp add: dbToLinear_def)
  next
    case f: False
    then show ?thesis using False by (simp add: dbToLinear_def)
  qed
qed

lemma peak_scaled:
  assumes "0 \<le> g" "list_all is_finite (concat chs)"
  shows "peak_amplitude (map (map (\<lambda>x. jmul x (Num g))) chs) = g * peak_amplitude chs"
proof -
  let ?A = "set (0 # map (\<lambda>x. \<bar>the_num x\<bar>) (concat chs))"
  have m: "mono (\<lambda>y. g * y)" using assms(1) by (simp add: mono_def mult_left_mono)
  have e: "\<bar>the_num (jmul x (Num g))\<bar> = g * \<bar>the_num x\<bar>" if "x \<in> set (concat chs)" for x
  proof -
    have "is_finite x" using assms(2) that unfolding list_all_iff by blast
    then obtain a where "x = Num a" unfolding is_finite_iff by blast
    then show ?thesis using assms(1) by (simp add: the_num_def abs_mult mult.commute)
  qed
  have "set (0 # map (\<lambda>x. \<bar>the_num x\<bar>) (concat (map (map (\<lambda>x. jmul x (Num g))) chs)))
      = (\<lambda>y. g * y) ` ?A"
  proof -
    have "concat (map (map (\<lambda>x. jmul x (Num g))) chs) = map (\<lambda>x. jmul x (Num g)) (concat chs)"
      by (simp add: map_concat)
    then show ?thesis using e by (auto simp: image_iff)
  qed
  moreover have "Max ((\<lambda>y. g * y) ` ?A) = g * Max ?A"
    using mono_Max_commute [OF m, of ?A] by simp
  ultimately show ?thesis by (simp only: peak_amplitude_def)
qed

lemma normalizeBuffer_result:
  assumes "hasAudioContext an"
    and "list_all is_finite (concat (channelData buf))"
    and "0 < peak_amplitude (channelData buf)"
  shows "normalizeBuffer an buf (Num t) = Inr (normalized buf t)"
proof -
  have ma: "max_amplitude (channelData buf) = Num (peak_amplitude (channelData buf))"
    by (rule max_amplitude_peak [OF assms(2)])
  show ?thesis
    using assms(1,3)
    by (simp add: normalizeBuffer_def Let_def ma jeq_def dbToLinear_finite normalized_def)
qed

lemma normalized_peak:
  assumes "list_all is_finite (concat (channelData buf))"
    and "0 < peak_amplitude (channelData buf)"
  shows "peak_amplitude (channelData (normalized buf t)) = 10 powr (t / 20)"
proof -
  have g: "0 \<le> 10 powr (t / 20) / peak_amplitude (channelData buf)"
    using assms(2) by simp
  show ?thesis
    using peak_scaled [OF g assms(1)] assms(2) by (simp add: normalized_def)
qed

subsection \<open>The silence check\<close>

lemma fold_squares:
  "list_all is_finite xs \<Longrightarrow>
   fold (\<lambda>x rms. jadd rms (jmul x x)) xs (Num a) = Num (a + (\<Sum>x\<leftarrow>map the_num xs. x\<^sup>2))"
proof (induction xs arbitrary: a)
  case Nil
  then show ?case by simp
next
  case (Cons x xs)
  then obtain y where y: "x = Num y" by (auto simp: is_finite_iff)
  show ?case using Cons by (simp add: y the_num_def power2_eq_square add.assoc)
qed

lemma eps_powr: "(1 / 10 ^ 10 :: real) = 10 powr (- 10)"
  by (simp add: powr_minus_divide)

lemma log10_floor: "log 10 (1 / 10 ^ 10) = - 10"
  by (simp only: eps_powr) simp

lemma guarded_level:
  assumes "0 \<le> r"
  shows "20 * log 10 (max r (1 / 10 ^ 10)) < - 60 \<longleftrightarrow> r = 0 \<or> 20 * log 10 r < - 60"
proof (cases "r < 1 / 10 ^ 10")
  case False
  then have "max r (1 / 10 ^ 10) = r" "r \<noteq> 0" by (auto simp: max_def)
  then show ?thesis by simp
next
  case True
  then have m: "max r (1 / 10 ^ 10) = 1 / 10 ^ 10" by (simp add: max_def)
  have l: "20 * log 10 (max r (1 / 10 ^ 10)) < - 60"
    by (simp only: m log10_floor)
  have "20 * log 10 r < - 60" if "r \<noteq> 0"
  proof -
    have "0 < r" using that assms by simp
    then have "log 10 r < log 10 (1 / 10 ^ 10)" using True by (intro log_less) simp_all
    then have "log 10 r < - 10" by (simp only: log10_floor)
    then show ?thesis by simp
  qed
  then show ?thesis using l by blast
qed

lemma jmax_Num: "jmax (Num a) (Num b) = Num (max a b)"
  by (simp add: jmax_def max_def)

lemma linearToDb_finite:
  assumes "0 \<le> r"
  shows "linearToDb (Num r) = Num (20 * log 10 (max r (1 / 10 ^ 10)))"
proof -
  have "0 < max r (1 / 10 ^ 10)" by (simp add: max_def)
  then have "jlog10 (Num (max r (1 / 10 ^ 10))) = Num (log 10 (max r (1 / 10 ^ 10)))"
    by (simp del: less_max_iff_disj)
  then show ?thesis by (simp only: linearToDb_def jmax_Num jmul.simps)
qed

lemma checkSilence_level:
  assumes "channelData buf = ch # chs" "ch \<noteq> []" "list_all is_finite ch"
  shows "checkSilence buf =
     (if level_below_threshold (map the_num ch) then Inl TooQuiet
      else Inr (Num (20 * log 10 (max (rms (map the_num ch)) (1 / 10 ^ 10)))))"
proof -
  let ?s = "\<Sum>x\<leftarrow>map the_num ch. x\<^sup>2"
  have s: "0 \<le> ?s" by (rule sum_list_nonneg) auto
  have r: "0 \<le> rms (map the_num ch)" using s by (simp add: rms_def)
  have f: "fold (\<lambda>x rms. jadd rms (jmul x x)) ch (Num 0) = Num ?s"
    using fold_squares [OF assms(3), of 0] by simp
  have l: "linearToDb (Num (rms (map the_num ch)))
      = Num (20 * log 10 (max (rms (map the_num ch)) (1 / 10 ^ 10)))"
    by (rule linearToDb_finite [OF r])
  have "jsqrt (jdiv (Num ?s) (Num (real (length ch)))) = Num (rms (map the_num ch))"
    using assms(2) s by (simp add: rms_def not_less divide_nonneg_nonneg)
  then have "checkSilence buf =
     (if 20 * log 10 (max (rms (map the_num ch)) (1 / 10 ^ 10)) < - 60 then Inl TooQuiet
      else Inr (Num (20 * log 10 (max (rms (map the_num ch)) (1 / 10 ^ 10)))))"
    by (simp only: checkSilence_def assms(1) f Let_def l SILENCE_THRESHOLD_DB_def
        list.case jlt.simps)
  then show ?thesis
    by (simp only: guarded_level [OF r] level_below_threshold_def)
qed

lemma rms_zero:
  assumes "\<forall>x \<in> set xs. x = 0"
  shows "rms xs = 0"
proof -
  have "(\<Sum>x\<leftarrow>xs. x\<^sup>2) = 0" using assms by (induction xs) simp_all
  then show ?thesis by (simp add: rms_def)
qed

lemma loud_peak:
  assumes "\<not> level_below_threshold (map the_num ch)"
  shows "0 < peak_amplitude (ch # chs)"
proof -
  have "rms (map the_num ch) \<noteq> 0" using assms by (simp add: level_below_threshold_def)
  then obtain x where x: "x \<in> set ch" "the_num x \<noteq> 0"
    using rms_zero [of "map the_num ch"] by auto
  then have "\<bar>the_num x\<bar> \<in> set (0 # map (\<lambda>x. \<bar>the_num x\<bar>) (concat (ch # chs)))" by auto
  then have "\<bar>the_num x\<bar> \<le> peak_amplitude (ch # chs)"
    unfolding peak_amplitude_def by (intro Max_ge) simp_all
  then show ?thesis using x(2) by linarith
qed

subsection \<open>The example buffers\<close>

lemma rms_single: "rms [x] = \<bar>x\<bar>"
  by (simp add: rms_def)

lemma quiet_level: "level_below_threshold (map the_num [Num (1 / 10000)])"
proof -
  have "(1 / 10000 :: real) = 10 powr (- 4)" by (simp add: powr_minus_divide)
  then have "log 10 (1 / 10000) = - 4" by (simp only:) simp
  then have "20 * log 10 \<bar>1 / 10000 :: real\<bar> < - 60" by simp
  then show ?thesis by (simp add: level_below_threshold_def rms_single the_num_def)
qed

lemma loud_level: "\<not> level_below_threshold (map the_num [Num (1 / 2)])"
proof -
  have "(10::real) powr (- 3) \<le> 1 / 2" by (simp add: powr_minus_divide)
  then have "- 3 \<le> log 10 (1 / 2 :: real)" by (subst le_log_iff) simp_all
  then have "\<not> 20 * log 10 \<bar>1 / 2 :: real\<bar> < - 60" by simp
  then show ?thesis by (simp add: level_below_threshold_def rms_single the_num_def)
qed

lemma loud_peak_value: "peak_amplitude (channelData loud_buffer) = 1 / 2"
  by (simp add: peak_amplitude_def loud_buffer_def the_num_def)

lemma quiet_peak_value: "peak_amplitude (channelData quiet_buffer) = 1 / 10000"
  by (simp add: peak_amplitude_def quiet_buffer_def the_num_def)

lemma normalized_quiet:
  "channelData (normalized quiet_buffer (- 3)) = [[Num (10 powr (- 3 / 20))], [Num 0]]"
  by (simp add: normalized_def quiet_peak_value) (simp add: quiet_buffer_def)

lemma normalized_quiet_level:
  "\<not> level_below_threshold (map the_num [Num (10 powr (- 3 / 20))])"
  by (simp add: level_below_threshold_def rms_single the_num_def)

subsection \<open>The claims on the analyzer\<close>

text \<open>
  Claim C7. For a buffer of finite samples with a peak absolute amplitude above 0, on an
  analyzer with an audio context, \<open>normalizeBuffer\<close> returns the buffer with every
  sample scaled by \<open>10^(targetDb/20) / peakAbsoluteAmplitude\<close>, whose peak absolute
  sample is \<open>10^(targetDb/20)\<close>: \<open>10^(-3/20)\<close> for the target of -3 dB. (Finite numbers
  are exact reals here; the program rounds to 32-bit floats.)
\<close>

theorem normalizeBuffer_peak:
  assumes "hasAudioContext an"
    and "list_all is_finite (concat (channelData buf))"
    and "0 < peak_amplitude (channelData buf)"
  shows "\<exists>nb. normalizeBuffer an buf (Num t) = Inr nb \<and>
      channelData nb =
        map (map (\<lambda>x. jmul x (Num (10 powr (t / 20) / peak_amplitude (channelData buf)))))
          (channelData buf) \<and>
      peak_amplitude (channelData nb) = 10 powr (t / 20) \<and>
      (t = - 3 \<longrightarrow> normalizeBuffer an buf NORMALIZE_TARGET_DB = Inr nb \<and>
                   peak_amplitude (channelData nb) = 10 powr (- 3 / 20))"
proof -
  have n: "normalizeBuffer an buf (Num t) = Inr (normalized buf t)"
    by (rule normalizeBuffer_result [OF assms])
  have p: "peak_amplitude (channelData (normalized buf t)) = 10 powr (t / 20)"
    by (rule normalized_peak [OF assms(2,3)])
  have c: "channelData (normalized buf t) =
        map (map (\<lambda>x. jmul x (Num (10 powr (t / 20) / peak_amplitude (channelData buf)))))
          (channelData buf)"
    by (simp add: normalized_def)
  show ?thesis using n p c by (auto simp: NORMALIZE_TARGET_DB_def)
qed

theorem normalizeBuffer_peak_witness:
  "hasAudioContext ready_analyzer \<and>
   list_all is_finite (concat (channelData loud_buffer)) \<and>
   0 < peak_amplitude (channelData loud_buffer) \<and>
   (\<exists>nb. normalizeBuffer ready_analyzer loud_buffer (Num (- 3)) = Inr nb \<and>
      channelData nb =
        map (map (\<lambda>x. jmul x (Num (10 powr (- 3 / 20) / peak_amplitude (channelData loud_buffer)))))
          (channelData loud_buffer) \<and>
      peak_amplitude (channelData nb) = 10 powr (- 3 / 20) \<and>
      normalizeBuffer ready_analyzer loud_buffer NORMALIZE_TARGET_DB = Inr nb)"
proof -
  have a: "hasAudioContext ready_analyzer" by (simp add: ready_analyzer_def)
  have b: "list_all is_finite (concat (channelData loud_buffer))"
    by (simp add: loud_buffer_def)
  have c: "0 < peak_amplitude (channelData loud_buffer)" by (simp add: loud_peak_value)
  from normalizeBuffer_peak [OF a b c, of "- 3"] a b c show ?thesis by auto
qed

text \<open>
  Claim C6. For a file that passes validation and decodes to a buffer of finite samples
  with a non-empty channel 0, \<open>analyze\<close> fails with a silent-audio error exactly when
  the RMS level of channel 0 of the decoded buffer is below -60 dB; the error is raised
  by \<open>checkSilence\<close> on the decoded buffer, before \<open>normalizeBuffer\<close> is called, and no
  descriptor is returned. Otherwise normalization succeeds and the descriptor is
  computed from the normalized buffer. A buffer at -80 dB is rejected although its
  normalization would pass the check.
\<close>

theorem analyze_silence:
  assumes "file_size f \<le> MAX_FILE_SIZE" and "decoded f = Some buf"
    and "channelData buf = ch # chs" and "ch \<noteq> []"
    and "list_all is_finite (concat (channelData buf))"
  shows "((\<exists>e. analyze extract an f = Inl e \<and> silent_error e)
            \<longleftrightarrow> level_below_threshold (map the_num ch)) \<and>
         (level_below_threshold (map the_num ch) \<longrightarrow>
            checkSilence buf = Inl TooQuiet \<and> analyze extract an f = Inl TooQuiet) \<and>
         (\<not> level_below_threshold (map the_num ch) \<longrightarrow>
            (\<exists>nb. normalizeBuffer (analyzer_initialize an) buf NORMALIZE_TARGET_DB = Inr nb \<and>
                  analyze extract an f = Inr (extract nb)))"
proof -
  have fin: "list_all is_finite ch" using assms(3,5) by simp
  note cs = checkSilence_level [OF assms(3,4) fin]
  have v: "validateFile f = Inr True" using assms(1) by (simp add: validateFile_def)
  have quiet: "checkSilence buf = Inl TooQuiet \<and> analyze extract an f = Inl TooQuiet"
    if "level_below_threshold (map the_num ch)"
    using that cs v assms(2) by (simp add: analyze_def Let_def)
  have loud: "normalizeBuffer (analyzer_initialize an) buf NORMALIZE_TARGET_DB
        = Inr (normalized buf (- 3)) \<and>
      analyze extract an f = Inr (extract (normalized buf (- 3)))"
    if l: "\<not> level_below_threshold (map the_num ch)"
  proof -
    have p: "0 < peak_amplitude (channelData buf)"
      using loud_peak [OF l] assms(3) by simp
    have c: "hasAudioContext (analyzer_initialize an)" by (simp add: analyzer_initialize_def)
    have n: "normalizeBuffer (analyzer_initialize an) buf NORMALIZE_TARGET_DB
        = Inr (normalized buf (- 3))"
      using normalizeBuffer_result [OF c assms(5) p, of "- 3"]
      by (simp add: NORMALIZE_TARGET_DB_def)
    then show ?thesis using l cs v assms(2) by (simp add: analyze_def Let_def)
  qed
  have iff: "(\<exists>e. analyze extract an f = Inl e \<and> silent_error e)
            \<longleftrightarrow> level_below_threshold (map the_num ch)"
  proof (cases "level_below_threshold (map the_num ch)")
    case True
    then show ?thesis using quiet by (simp add: silent_error_def)
  next
    case False
    then show ?thesis using loud by simp
  qed
  show ?thesis using iff quiet loud by blast
qed

theorem analyze_silence_witness:
  "file_size quiet_file \<le> MAX_FILE_SIZE \<and> decoded quiet_file = Some quiet_buffer \<and>
   channelData quiet_buffer = [Num (1 / 10000)] # [[Num 0]] \<and>
   list_all is_finite (concat (channelData quiet_buffer)) \<and>
   level_below_threshold (map the_num [Num (1 / 10000)]) \<and>
   analyze bufferRate new_analyzer quiet_file = Inl TooQuiet \<and>
   checkSilence quiet_buffer = Inl TooQuiet \<and>
   normalizeBuffer ready_analyzer quiet_buffer NORMALIZE_TARGET_DB
     = Inr (normalized quiet_buffer (- 3)) \<and>
   checkSilence (normalized quiet_buffer (- 3)) \<noteq> Inl TooQuiet \<and>
   file_size loud_file \<le> MAX_FILE_SIZE \<and> decoded loud_file = Some loud_buffer \<and>
   channelData loud_buffer = [Num (1 / 2)] # [[Num (- 1 / 4)]] \<and>
   list_all is_finite (concat (channelData loud_buffer)) \<and>
   \<not> level_below_threshold (map the_num [Num (1 / 2)]) \<and>
   (\<exists>nb. normalizeBuffer (analyzer_initialize new_analyzer) loud_buffer NORMALIZE_TARGET_DB
            = Inr nb \<and>
         analyze bufferRate new_analyzer loud_file = Inr (bufferRate nb))"
proof -
  have q: "file_size quiet_file \<le> MAX_FILE_SIZE" "decoded quiet_file = Some quiet_buffer"
    "channelData quiet_buffer = [Num (1 / 10000)] # [[Num 0]]" "[Num (1 / 10000)] \<noteq> []"
    "list_all is_finite (concat (channelData quiet_buffer))"
    by (simp_all add: quiet_file_def quiet_buffer_def MAX_FILE_SIZE_def)
  have l: "file_size loud_file \<le> MAX_FILE_SIZE" "decoded loud_file = Some loud_buffer"
    "channelData loud_buffer = [Num (1 / 2)] # [[Num (- 1 / 4)]]" "[Num (1 / 2)] \<noteq> []"
    "list_all is_finite (concat (channelData loud_buffer))"
    by (simp_all add: loud_file_def loud_buffer_def MAX_FILE_SIZE_def)
  have n: "normalizeBuffer ready_analyzer quiet_buffer NORMALIZE_TARGET_DB
     = Inr (normalized quiet_buffer (- 3))"
    using normalizeBuffer_result [of ready_analyzer quiet_buffer "- 3"] q(5)
    by (simp add: quiet_peak_value ready_analyzer_def NORMALIZE_TARGET_DB_def)
  have c: "checkSilence (normalized quiet_buffer (- 3)) \<noteq> Inl TooQuiet"
    using checkSilence_level [OF normalized_quiet, of ] normalized_quiet_level
    by simp
  from analyze_silence [OF q, of bufferRate new_analyzer]
    analyze_silence [OF l, of bufferRate new_analyzer]
    q l quiet_level loud_level n c
  show ?thesis by blast
qed

end
